theory Spec2Isabelle
  imports Main "HOL-Library.AList" "HOL-Library.Sublist"
begin

section \<open>JavaScript arrays\<close>

text \<open>
  The array methods the modules call, on lists. Indices are JavaScript integers
  (\<open>int\<close>): a negative start counts from the end of the array and every bound is
  clamped to the array, as \<open>Array.prototype.slice\<close> and \<open>Array.prototype.splice\<close> do.
\<close>

definition relative_index :: "nat \<Rightarrow> int \<Rightarrow> nat" where
  "relative_index len i =
     (if i < 0 then nat (max (int len + i) 0) else min (nat i) len)"

definition slice :: "'a list \<Rightarrow> int \<Rightarrow> int \<Rightarrow> 'a list" where
  "slice xs start end =
     (let k = relative_index (length xs) start;
          final = relative_index (length xs) end
      in take (final - k) (drop k xs))"

text \<open>\<open>splice xs start deleteCount\<close> is the array left after \<open>xs.splice(start, deleteCount)\<close>.\<close>

definition splice :: "'a list \<Rightarrow> int \<Rightarrow> int \<Rightarrow> 'a list" where
  "splice xs start deleteCount =
     (let k = relative_index (length xs) start;
          dc = min (nat (max deleteCount 0)) (length xs - k)
      in take k xs @ drop (k + dc) xs)"

definition unshift :: "'a list \<Rightarrow> 'a \<Rightarrow> 'a list" where
  "unshift xs x = x # xs"

section \<open>HistoryManager\<close>

text \<open>
  The manager holds the list \<open>history\<close> and writes it to local storage under the key
  \<open>tx_history\<close>. The stored document is modelled by the list that was serialised
  (\<open>None\<close>: nothing stored under the key). \<open>localStorage.setItem\<close> may throw (quota,
  storage disabled); \<open>_saveHistory\<close> catches that and only logs it, so every operation
  that saves takes a flag \<open>w\<close> saying whether the write goes through.
\<close>

record 'e history_manager =
  history :: "'e list"
  tx_history :: "'e list option"

definition maxHistoryItems :: nat where
  "maxHistoryItems = 50"

definition saveHistory :: "bool \<Rightarrow> 'e history_manager \<Rightarrow> 'e history_manager" where
  "saveHistory w s = (if w then s\<lparr>tx_history := Some (history s)\<rparr> else s)"

definition addToHistory ::
  "bool \<Rightarrow> 'e \<Rightarrow> 'e history_manager \<Rightarrow> bool \<times> 'e history_manager" where
  "addToHistory w historyItem s =
     (let s1 = s\<lparr>history := unshift (history s) historyItem\<rparr>;
          s2 = (if length (history s1) > maxHistoryItems
                then s1\<lparr>history := slice (history s1) 0 (int maxHistoryItems)\<rparr>
                else s1)
      in (True, saveHistory w s2))"

definition clearHistory :: "bool \<Rightarrow> 'e history_manager \<Rightarrow> bool \<times> 'e history_manager" where
  "clearHistory w s = (True, saveHistory w (s\<lparr>history := []\<rparr>))"

text \<open>The index is a JavaScript integer; the guard is the source's, on both sides.\<close>

definition deleteHistoryItem ::
  "bool \<Rightarrow> int \<Rightarrow> 'e history_manager \<Rightarrow> bool \<times> 'e history_manager" where
  "deleteHistoryItem w index s =
     (if index \<ge> 0 \<and> index < int (length (history s))
      then (True, saveHistory w (s\<lparr>history := splice (history s) index 1\<rparr>))
      else (False, s))"

definition getHistory :: "'e history_manager \<Rightarrow> 'e list" where
  "getHistory s = history s"

text \<open>Adding a whole sequence of entries, oldest first, one call each.\<close>

fun addAll :: "'e list \<Rightarrow> 'e history_manager \<Rightarrow> 'e history_manager" where
  "addAll [] s = s"
| "addAll (x # xs) s = addAll xs (snd (addToHistory True x s))"

section \<open>JSON.parse\<close>

text \<open>
  \<open>JSON.parse\<close> on a text: the value it returns, or \<open>None\<close> where it throws a
  SyntaxError. The grammar is that of ECMA-404: the four whitespace characters, the
  three literals, numbers, strings with their escapes, arrays and objects. A text is a
  \<open>string\<close>; a number and a string keep their characters as written, since the modules
  only ask whether the text parses and whether the value is an array. The parser
  descends with a fuel of one more than the length of the text; that this is enough for
  every text is proved below.
\<close>

datatype json =
    JNull
  | JBool bool
  | JNumber string
  | JString string
  | JArray "json list"
  | JObject "(string \<times> json) list"

definition is_ws :: "char \<Rightarrow> bool" where
  "is_ws c = (c = CHR '' '' \<or> c = CHR 0x09 \<or> c = CHR 0x0A \<or> c = CHR 0x0D)"

definition skip_ws :: "string \<Rightarrow> string" where
  "skip_ws s = dropWhile is_ws s"

definition is_digit :: "char \<Rightarrow> bool" where
  "is_digit c = (c \<in> set ''0123456789'')"

definition is_hex :: "char \<Rightarrow> bool" where
  "is_hex c = (c \<in> set ''0123456789abcdefABCDEF'')"

fun parse_string_chars :: "string \<Rightarrow> (string \<times> string) option" where
  "parse_string_chars [] = None"
| "parse_string_chars (c # cs) =
     (if c = CHR 0x22 then Some ([], cs)
      else if c = CHR 0x5C then
        (case cs of
           [] \<Rightarrow> None
         | e # es \<Rightarrow>
             if e \<in> set [CHR 0x22, CHR 0x5C, CHR ''/'', CHR ''b'', CHR ''f'', CHR ''n'',
                          CHR ''r'', CHR ''t'']
             then map_option (\<lambda>(t, r). (c # e # t, r)) (parse_string_chars es)
             else if e = CHR ''u'' then
               (case es of
                  h1 # h2 # h3 # h4 # r \<Rightarrow>
                    if is_hex h1 \<and> is_hex h2 \<and> is_hex h3 \<and> is_hex h4
                    then map_option (\<lambda>(t, r'). (c # e # h1 # h2 # h3 # h4 # t, r'))
                           (parse_string_chars r)
                    else None
                | _ \<Rightarrow> None)
             else None)
      else if (of_char c :: nat) < 32 then None
      else map_option (\<lambda>(t, r). (c # t, r)) (parse_string_chars cs))"

definition parse_digits :: "string \<Rightarrow> (string \<times> string) option" where
  "parse_digits s =
     (if takeWhile is_digit s = [] then None
      else Some (takeWhile is_digit s, dropWhile is_digit s))"

definition parse_int_part :: "string \<Rightarrow> (string \<times> string) option" where
  "parse_int_part s =
     (case s of
        [] \<Rightarrow> None
      | c # cs \<Rightarrow> if c = CHR ''0'' then Some ([c], cs) else parse_digits s)"

definition parse_frac :: "string \<Rightarrow> (string \<times> string) option" where
  "parse_frac s =
     (case s of
        [] \<Rightarrow> Some ([], s)
      | c # cs \<Rightarrow>
          if c = CHR ''.'' then map_option (\<lambda>(d, r). (c # d, r)) (parse_digits cs)
          else Some ([], s))"

definition parse_exp :: "string \<Rightarrow> (string \<times> string) option" where
  "parse_exp s =
     (case s of
        [] \<Rightarrow> Some ([], s)
      | c # cs \<Rightarrow>
          if c = CHR ''e'' \<or> c = CHR ''E'' then
            (case cs of
               [] \<Rightarrow> None
             | g # gs \<Rightarrow>
                 if g = CHR ''+'' \<or> g = CHR ''-''
                 then map_option (\<lambda>(d, r). (c # g # d, r)) (parse_digits gs)
                 else map_option (\<lambda>(d, r). (c # d, r)) (parse_digits cs))
          else Some ([], s))"

definition parse_number :: "string \<Rightarrow> (string \<times> string) option" where
  "parse_number s =
     (let (sign, s1) = (case s of [] \<Rightarrow> ([], s)
                        | c # cs \<Rightarrow> if c = CHR ''-'' then ([c], cs) else ([], s))
      in case parse_int_part s1 of
           None \<Rightarrow> None
         | Some (i, s2) \<Rightarrow>
             (case parse_frac s2 of
                None \<Rightarrow> None
              | Some (f, s3) \<Rightarrow>
                  (case parse_exp s3 of
                     None \<Rightarrow> None
                   | Some (e, s4) \<Rightarrow> Some (sign @ i @ f @ e, s4))))"

definition parse_literal :: "string \<Rightarrow> (json \<times> string) option" where
  "parse_literal s =
     (if take 4 s = ''null'' then Some (JNull, drop 4 s)
      else if take 4 s = ''true'' then Some (JBool True, drop 4 s)
      else if take 5 s = ''false'' then Some (JBool False, drop 5 s)
      else map_option (\<lambda>(t, r). (JNumber t, r)) (parse_number s))"

fun parse_value :: "nat \<Rightarrow> string \<Rightarrow> (json \<times> string) option"
  and parse_elements :: "nat \<Rightarrow> string \<Rightarrow> (json list \<times> string) option"
  and parse_members :: "nat \<Rightarrow> string \<Rightarrow> ((string \<times> json) list \<times> string) option"
where
  "parse_value 0 s = None"
| "parse_value (Suc n) s =
     (case skip_ws s of
        [] \<Rightarrow> None
      | c # cs \<Rightarrow>
          if c = CHR ''['' then
            (case skip_ws cs of
               [] \<Rightarrow> None
             | d # ds \<Rightarrow>
                 if d = CHR '']'' then Some (JArray [], ds)
                 else map_option (\<lambda>(vs, r). (JArray vs, r)) (parse_elements n cs))
          else if c = CHR ''{'' then
            (case skip_ws cs of
               [] \<Rightarrow> None
             | d # ds \<Rightarrow>
                 if d = CHR ''}'' then Some (JObject [], ds)
                 else map_option (\<lambda>(ms, r). (JObject ms, r)) (parse_members n cs))
          else if c = CHR 0x22 then
            map_option (\<lambda>(t, r). (JString t, r)) (parse_string_chars cs)
          else parse_literal (c # cs))"
| "parse_elements 0 s = None"
| "parse_elements (Suc n) s =
     (case parse_value n s of
        None \<Rightarrow> None
      | Some (v, r) \<Rightarrow>
          (case skip_ws r of
             [] \<Rightarrow> None
           | c # cs \<Rightarrow>
               if c = CHR '','' then map_option (\<lambda>(vs, r'). (v # vs, r')) (parse_elements n cs)
               else if c = CHR '']'' then Some ([v], cs)
               else None))"
| "parse_members 0 s = None"
| "parse_members (Suc n) s =
     (case skip_ws s of
        [] \<Rightarrow> None
      | q # qs \<Rightarrow>
          if q \<noteq> CHR 0x22 then None
          else
            (case parse_string_chars qs of
               None \<Rightarrow> None
             | Some (k, r) \<Rightarrow>
                 (case skip_ws r of
                    [] \<Rightarrow> None
                  | c # cs \<Rightarrow>
                      if c \<noteq> CHR '':'' then None
                      else
                        (case parse_value n cs of
                           None \<Rightarrow> None
                         | Some (v, r1) \<Rightarrow>
                             (case skip_ws r1 of
                                [] \<Rightarrow> None
                              | e # es \<Rightarrow>
                                  if e = CHR '','' then
                                    map_option (\<lambda>(ms, r'). ((k, v) # ms, r'))
                                      (parse_members n es)
                                  else if e = CHR ''}'' then Some ([(k, v)], es)
                                  else None)))))"

definition JSON_parse :: "string \<Rightarrow> json option" where
  "JSON_parse s =
     (case parse_value (Suc (length s)) s of
        None \<Rightarrow> None
      | Some (v, r) \<Rightarrow> if skip_ws r = [] then Some v else None)"

section \<open>Plain objects used as dictionaries\<close>

text \<open>
  \<open>savedAbis\<close> is a plain object (\<open>{}\<close>, or what \<open>JSON.parse\<close> returns), used as a
  dictionary from names to texts. Its own properties are an association list in order of
  creation. Its prototype is \<open>Object.prototype\<close>, so reading \<open>obj[name]\<close> for a name
  that is not an own property finds the members of \<open>Object.prototype\<close>: functions, and
  for \<open>__proto__\<close> the prototype object itself, none of them a text.
\<close>

definition Object_prototype_keys :: "string list" where
  "Object_prototype_keys =
     [''constructor'', ''__defineGetter__'', ''__defineSetter__'', ''hasOwnProperty'',
      ''__lookupGetter__'', ''__lookupSetter__'', ''isPrototypeOf'',
      ''propertyIsEnumerable'', ''toString'', ''valueOf'', ''__proto__'',
      ''toLocaleString'']"

text \<open>
  What an expression \<open>obj[name] || null\<close> can evaluate to: a value stored in the object,
  the member \<open>name\<close> of \<open>Object.prototype\<close>, \<open>undefined\<close>, or \<open>null\<close>.
\<close>

datatype 'v lookup = Value 'v | Builtin string | Undefined | Null

definition get_property :: "(string \<times> 'v) list \<Rightarrow> string \<Rightarrow> 'v lookup" where
  "get_property props name =
     (case map_of props name of
        Some v \<Rightarrow> Value v
      | None \<Rightarrow> if name \<in> set Object_prototype_keys then Builtin name else Undefined)"

text \<open>
  \<open>obj[name] = v\<close> for a string \<open>v\<close>. An own property is overwritten. Otherwise the
  assignment creates an own property, except under the name \<open>__proto__\<close>: that name is
  an accessor of \<open>Object.prototype\<close>, the assignment calls its setter, and the setter
  ignores a value that is neither an object nor \<open>null\<close>.
\<close>

definition assign_text ::
  "(string \<times> string) list \<Rightarrow> string \<Rightarrow> string \<Rightarrow> (string \<times> string) list" where
  "assign_text props name v =
     (if name = ''__proto__'' \<and> map_of props name = None then props
      else AList.update name v props)"

definition delete_property :: "(string \<times> 'v) list \<Rightarrow> string \<Rightarrow> (string \<times> 'v) list" where
  "delete_property props name = AList.delete name props"

text \<open>
  \<open>Object.keys\<close>: the own property names, those that are array indices (canonical
  decimal numerals below \<open>2^32 - 1\<close>) first in ascending numeric order, then the others
  in order of creation.
\<close>

definition digit_value :: "char \<Rightarrow> int" where
  "digit_value c = of_char c - 48"

definition int_of_digits :: "string \<Rightarrow> int" where
  "int_of_digits s = foldl (\<lambda>a c. 10 * a + digit_value c) 0 s"

definition is_array_index :: "string \<Rightarrow> bool" where
  "is_array_index k =
     (k \<noteq> [] \<and> list_all is_digit k \<and> (k = ''0'' \<or> hd k \<noteq> CHR ''0'')
      \<and> int_of_digits k < 4294967295)"

definition Object_keys :: "(string \<times> 'v) list \<Rightarrow> string list" where
  "Object_keys props =
     sort_key int_of_digits (filter is_array_index (map fst props))
     @ filter (\<lambda>k. \<not> is_array_index k) (map fst props)"

text \<open>Truthiness of what a dictionary of texts yields: the empty string is falsy.\<close>

fun truthy :: "string lookup \<Rightarrow> bool" where
  "truthy (Value v) = (v \<noteq> [])"
| "truthy (Builtin n) = True"
| "truthy Undefined = False"
| "truthy Null = False"

section \<open>AbiManager\<close>

text \<open>
  The manager holds \<open>savedAbis\<close> and writes it to local storage under the key
  \<open>saved_abis\<close>; the stored document is modelled by the object that was serialised.
  The flag \<open>w\<close> of an operation says whether its \<open>localStorage.setItem\<close> goes through
  or throws. In \<open>saveAbi\<close> the write is inside the \<open>try\<close> block, after the assignment
  to \<open>savedAbis\<close>, so its exception is caught with the parser's and becomes the
  invalid-format error; in \<open>deleteAbi\<close> nothing catches it.
\<close>

record abi_manager =
  savedAbis :: "(string \<times> string) list"
  saved_abis :: "(string \<times> string) list option"

datatype abi_error = InvalidAbiFormat | StorageError

definition AbiManager_new :: abi_manager where
  "AbiManager_new = \<lparr>savedAbis = [], saved_abis = None\<rparr>"

definition saveAbi ::
  "bool \<Rightarrow> string \<Rightarrow> string \<Rightarrow> abi_manager \<Rightarrow> (abi_error + bool) \<times> abi_manager" where
  "saveAbi w name content s =
     (case JSON_parse content of
        None \<Rightarrow> (Inl InvalidAbiFormat, s)
      | Some parsedAbi \<Rightarrow>
          (let s1 = s\<lparr>savedAbis := assign_text (savedAbis s) name content\<rparr>
           in if w then (Inr True, s1\<lparr>saved_abis := Some (savedAbis s1)\<rparr>)
              else (Inl InvalidAbiFormat, s1)))"

definition deleteAbi ::
  "bool \<Rightarrow> string \<Rightarrow> abi_manager \<Rightarrow> (abi_error + bool) \<times> abi_manager" where
  "deleteAbi w name s =
     (if truthy (get_property (savedAbis s) name) then
        (let s1 = s\<lparr>savedAbis := delete_property (savedAbis s) name\<rparr>
         in if w then (Inr True, s1\<lparr>saved_abis := Some (savedAbis s1)\<rparr>)
            else (Inl StorageError, s1))
      else (Inr False, s))"

definition getAbiByName :: "abi_manager \<Rightarrow> string \<Rightarrow> string lookup" where
  "getAbiByName s name =
     (if truthy (get_property (savedAbis s) name) then get_property (savedAbis s) name
      else Null)"

definition getSavedAbisList :: "abi_manager \<Rightarrow> string list" where
  "getSavedAbisList s = Object_keys (savedAbis s)"

definition validateAbi :: "string \<Rightarrow> bool" where
  "validateAbi abiString =
     (case JSON_parse abiString of
        None \<Rightarrow> False
      | Some parsedAbi \<Rightarrow> (case parsedAbi of JArray xs \<Rightarrow> True | _ \<Rightarrow> False))"

section \<open>The static file server\<close>

text \<open>
  \<open>path.extname\<close> of Node.js in its POSIX form, as the library computes it: one pass
  over the path from its last character down, with the library's five variables, then
  the library's test. \<open>extname_loop path n st\<close> runs the loop for the indices below
  \<open>n\<close>; the \<open>break\<close> is the branch that returns without a recursive call.
\<close>

record ext_state =
  startDot :: int
  startPart :: int
  endPos :: int
  matchedSlash :: bool
  preDotState :: int

fun extname_loop :: "string \<Rightarrow> nat \<Rightarrow> ext_state \<Rightarrow> ext_state" where
  "extname_loop path 0 st = st"
| "extname_loop path (Suc i) st =
     (let code = path ! i in
      if code = CHR ''/'' then
        (if \<not> matchedSlash st then st\<lparr>startPart := int i + 1\<rparr>
         else extname_loop path i st)
      else
        (let st1 = (if endPos st = - 1 then st\<lparr>endPos := int i + 1, matchedSlash := False\<rparr>
                    else st);
             st2 = (if code = CHR ''.'' then
                      (if startDot st1 = - 1 then st1\<lparr>startDot := int i\<rparr>
                       else if preDotState st1 \<noteq> 1 then st1\<lparr>preDotState := 1\<rparr>
                       else st1)
                    else if startDot st1 \<noteq> - 1 then st1\<lparr>preDotState := - 1\<rparr>
                    else st1)
         in extname_loop path i st2))"

text \<open>The invariant of the loop when the indices from \<open>n\<close> up have been visited.\<close>

definition ext_inv :: "string \<Rightarrow> nat \<Rightarrow> ext_state \<Rightarrow> bool" where
  "ext_inv path n st =
     ((endPos st = - 1 \<or> (int n < endPos st \<and> endPos st \<le> int (length path)))
      \<and> (startDot st = - 1
          \<or> (0 \<le> startDot st \<and> startDot st < endPos st
              \<and> path ! nat (startDot st) = CHR ''.'')))"

definition extname :: "string \<Rightarrow> string" where
  "extname path =
     (let st = extname_loop path (length path)
                 \<lparr>startDot = - 1, startPart = 0, endPos = - 1, matchedSlash = True,
                  preDotState = 0\<rparr>
      in if startDot st = - 1 \<or> endPos st = - 1 \<or> preDotState st = 0
            \<or> (preDotState st = 1 \<and> startDot st = endPos st - 1
                \<and> startDot st = startPart st + 1)
         then []
         else slice path (startDot st) (endPos st))"

definition MIME_TYPES :: "(string \<times> string) list" where
  "MIME_TYPES =
     [(''.html'', ''text/html''),
      (''.css'', ''text/css''),
      (''.js'', ''application/javascript''),
      (''.json'', ''application/json''),
      (''.png'', ''image/png''),
      (''.jpg'', ''image/jpeg''),
      (''.jpeg'', ''image/jpeg''),
      (''.gif'', ''image/gif''),
      (''.svg'', ''image/svg+xml''),
      (''.ico'', ''image/x-icon'')]"

text \<open>
  What \<open>fs.readFile\<close> hands to its callback: the content, or an error with its code.
  The file system is a function from paths to such results; both reads of one request
  see the same file system.
\<close>

datatype read_result = Content string | ReadError string

text \<open>
  A response: the status and the headers of \<open>writeHead\<close>, the body of \<open>end\<close>. A header
  value is what the JavaScript expression evaluates to, a string being \<open>Value\<close>.
\<close>

record response =
  status :: nat
  headers :: "(string \<times> string lookup) list"
  body :: string

definition filePath :: "string \<Rightarrow> string" where
  "filePath url = (if ''.'' @ url = ''./'' then ''./index.html'' else ''.'' @ url)"

definition contentType :: "string \<Rightarrow> string lookup" where
  "contentType path =
     (if truthy (get_property MIME_TYPES (extname path))
      then get_property MIME_TYPES (extname path)
      else Value ''text/plain'')"

definition handler :: "(string \<Rightarrow> read_result) \<Rightarrow> string \<Rightarrow> response" where
  "handler fs url =
     (case fs (filePath url) of
        ReadError code \<Rightarrow>
          if code = ''ENOENT'' then
            (case fs ''./index.html'' of
               ReadError err \<Rightarrow>
                 \<lparr>status = 500, headers = [], body = ''Error loading index.html''\<rparr>
             | Content content \<Rightarrow>
                 \<lparr>status = 200, headers = [(''Content-Type'', Value ''text/html'')],
                  body = content\<rparr>)
          else \<lparr>status = 500, headers = [], body = ''Server Error: '' @ code\<rparr>
      | Content content \<Rightarrow>
          \<lparr>status = 200, headers = [(''Content-Type'', contentType (filePath url))],
           body = content\<rparr>)"

text \<open>
  The directory the server runs in, as far as \<open>fs.readFile\<close> can tell: under a path
  there is nothing, a regular file with its content, a directory, or a file that the
  process may not read. \<open>readFile\<close> is what \<open>fs.readFile\<close> hands to its callback for
  each of them, with the error codes of the operating system.
\<close>

datatype disk_entry = Absent | Regular string | Directory | Unreadable

definition readFile :: "(string \<Rightarrow> disk_entry) \<Rightarrow> string \<Rightarrow> read_result" where
  "readFile disk p =
     (case disk p of
        Absent \<Rightarrow> ReadError ''ENOENT''
      | Regular content \<Rightarrow> Content content
      | Directory \<Rightarrow> ReadError ''EISDIR''
      | Unreadable \<Rightarrow> ReadError ''EACCES'')"

text \<open>Two directories to run the server in: a small site, and an empty directory.\<close>

definition site :: "string \<Rightarrow> disk_entry" where
  "site p = (if p = ''./index.html'' then Regular ''<html></html>''
             else if p = ''./css'' then Directory
             else if p = ''./css/styles.css'' then Regular ''body {}''
             else if p = ''./js/ethers.umd.min.js'' then Regular ''var ethers;''
             else if p = ''./LICENSE'' then Regular ''MIT''
             else if p = ''./.gitignore'' then Regular ''node_modules''
             else if p = ''./draft.'' then Regular ''todo''
             else if p = ''./notes.md'' then Regular ''# Notes''
             else if p = ''./server.key'' then Unreadable
             else Absent)"

definition empty_site :: "string \<Rightarrow> disk_entry" where
  "empty_site p = Absent"

section \<open>ContractInteractor\<close>

subsection \<open>The ABI and the bindings\<close>

text \<open>
  An ABI is an array of entries; an entry and a parameter are objects with the fields the
  module reads. A field that may be absent is an \<open>option\<close>: \<open>None\<close> is \<open>undefined\<close>.
  The fields \<open>item_type\<close>, \<open>item_name\<close> and \<open>constantFlag\<close> are the entry's \<open>type\<close>,
  \<open>name\<close> and \<open>constant\<close>; \<open>param_name\<close> and \<open>param_type\<close> are a parameter's \<open>name\<close>
  and \<open>type\<close>.
\<close>

record abi_param =
  param_name :: "string option"
  param_type :: string

record abi_item =
  item_type :: "string option"
  item_name :: "string option"
  stateMutability :: "string option"
  inputs :: "abi_param list option"
  outputs :: "abi_param list option"
  constantFlag :: "bool option"
  payable :: "bool option"

text \<open>The descriptor that \<open>getAvailableFunctions\<close> builds for a function entry.\<close>

record function_info =
  fn_name :: "string option"
  fn_type :: "string option"
  fn_inputs :: "abi_param list option"
  fn_outputs :: "abi_param list option"
  fn_constant :: "bool option"
  fn_payable :: bool

text \<open>
  A contract instance of the library: the address and the ABI it was made from, and
  whether it is connected to a signer.
\<close>

record binding =
  bound_address :: string
  bound_abi :: "abi_item list"
  bound_signer :: bool

record contract_interactor =
  contractAddress :: "string option"
  abi :: "abi_item list option"
  contract :: "binding option"
  contractWithSigner :: "binding option"

text \<open>
  What the wallet connector answers during one initialisation: whether \<open>getProvider()\<close>
  and \<open>getSigner()\<close> return an object rather than \<open>null\<close>, and whether obtaining the
  signer and connecting it (\<open>this.contract.connect(signer)\<close>) return rather than throw.
\<close>

record wallet =
  provider :: bool
  signer :: bool
  connects :: bool

text \<open>
  The contract library (ethers), as far as the module depends on it. It is a parameter
  of the model:
  \<^item> \<open>isAddress\<close> is \<open>ethers.utils.isAddress\<close>;
  \<^item> \<open>accepts items\<close> says whether \<open>new ethers.Contract(address, items, provider)\<close>
    returns an instance for this ABI rather than throws;
  \<^item> \<open>exposes items n\<close> says whether an instance made from the ABI \<open>items\<close> has a
    function under the bare name \<open>n\<close>, so that \<open>instance[n](...)\<close> is a call and not a
    TypeError;
  \<^item> \<open>parseEther\<close> is \<open>ethers.utils.parseEther\<close>, \<open>None\<close> where it throws.
\<close>

record library =
  isAddress :: "string \<Rightarrow> bool"
  accepts :: "abi_item list \<Rightarrow> bool"
  exposes :: "abi_item list \<Rightarrow> string \<Rightarrow> bool"
  parseEther :: "string \<Rightarrow> int option"

datatype call_error =
    InvalidAddress
  | NotReady
  | NoSuchFunction string
  | SignerRequired
  | TypeError
  | ParseEtherError

definition ContractInteractor_new :: contract_interactor where
  "ContractInteractor_new =
     \<lparr>contractAddress = None, abi = None, contract = None, contractWithSigner = None\<rparr>"

text \<open>
  \<open>_initializeContract\<close>. Every exception inside its \<open>try\<close> block is caught and makes
  it return \<open>false\<close>; the fields assigned before the exception keep their new values and
  the others their old ones. In particular, when the library refuses the ABI, both
  instances stay what they were.
\<close>

definition initializeContract ::
  "library \<Rightarrow> wallet \<Rightarrow> contract_interactor \<Rightarrow> bool \<times> contract_interactor" where
  "initializeContract lib env s =
     (case (contractAddress s, abi s) of
        (Some a, Some items) \<Rightarrow>
          if a = [] then (False, s)
          else if \<not> provider env then (False, s)
          else if \<not> accepts lib items then (False, s)
          else
            (let s1 = s\<lparr>contract :=
                        Some \<lparr>bound_address = a, bound_abi = items, bound_signer = False\<rparr>\<rparr>
             in if signer env then
                  (if connects env then
                     (True, s1\<lparr>contractWithSigner :=
                        Some \<lparr>bound_address = a, bound_abi = items, bound_signer = True\<rparr>\<rparr>)
                   else (False, s1))
                else (True, s1))
      | _ \<Rightarrow> (False, s))"

definition setContractAddress ::
  "library \<Rightarrow> wallet \<Rightarrow> string \<Rightarrow> contract_interactor
     \<Rightarrow> (call_error + bool) \<times> contract_interactor" where
  "setContractAddress lib env address s =
     (if \<not> isAddress lib address then (Inl InvalidAddress, s)
      else (Inr True,
            snd (initializeContract lib env (s\<lparr>contractAddress := Some address\<rparr>))))"

text \<open>
  \<open>setAbi\<close> on an ABI that is already parsed, which is how the application calls it. The
  new ABI is stored and \<open>true\<close> is returned whatever the initialisation answers.
\<close>

definition setAbi ::
  "library \<Rightarrow> wallet \<Rightarrow> abi_item list \<Rightarrow> contract_interactor
     \<Rightarrow> (call_error + bool) \<times> contract_interactor" where
  "setAbi lib env items s =
     (Inr True, snd (initializeContract lib env (s\<lparr>abi := Some items\<rparr>)))"


text \<open>
  \<open>contractWithSigner\<close> is only ever derived from the read-only instance made in the same
  initialisation, so a manager never has the former without the latter.
\<close>

definition bindings_ok :: "contract_interactor \<Rightarrow> bool" where
  "bindings_ok s = (contractWithSigner s \<noteq> None \<longrightarrow> contract s \<noteq> None)"

subsection \<open>Functions of the ABI\<close>

definition getAvailableFunctions :: "contract_interactor \<Rightarrow> function_info list" where
  "getAvailableFunctions s =
     (case abi s of
        None \<Rightarrow> []
      | Some items \<Rightarrow>
          map (\<lambda>func. \<lparr>fn_name = item_name func,
                        fn_type = stateMutability func,
                        fn_inputs = inputs func,
                        fn_outputs = outputs func,
                        fn_constant = constantFlag func,
                        fn_payable = (payable func = Some True
                                      \<or> stateMutability func = Some ''payable'')\<rparr>)
            (filter (\<lambda>item. item_type item = Some ''function'') items))"


subsection \<open>Parameters\<close>









subsection \<open>Calling\<close>



subsection \<open>Results\<close>

text \<open>
  A value that a call returns or that \<open>_formatResult\<close> produces: the primitives, a
  \<open>BigNumber\<close> of the library, an array, or a plain object given by its own properties
  in order of creation.
\<close>

datatype jsval =
    VUndefined
  | VNull
  | VBool bool
  | VNumber int
  | VString string
  | VBigNumber int
  | VArray "jsval list"
  | VObject "(string \<times> jsval) list"

text \<open>Decimal numerals, for \<open>BigNumber.toString()\<close> and for the index in a template string.\<close>

definition digit_char :: "int \<Rightarrow> char" where
  "digit_char d =
     (if d = 0 then CHR ''0'' else if d = 1 then CHR ''1'' else if d = 2 then CHR ''2''
      else if d = 3 then CHR ''3'' else if d = 4 then CHR ''4'' else if d = 5 then CHR ''5''
      else if d = 6 then CHR ''6'' else if d = 7 then CHR ''7'' else if d = 8 then CHR ''8''
      else CHR ''9'')"

function decimal :: "int \<Rightarrow> string" where
  "decimal i =
     (if i < 10 then [digit_char i] else decimal (i div 10) @ [digit_char (i mod 10)])"
  by pat_completeness auto
termination
  by (relation "measure nat") auto

declare decimal.simps [simp del]

definition string_of_int :: "int \<Rightarrow> string" where
  "string_of_int i = (if i < 0 then CHR ''-'' # decimal (- i) else decimal i)"

definition string_of_nat :: "nat \<Rightarrow> string" where
  "string_of_nat n = decimal (int n)"

fun isBigNumber :: "jsval \<Rightarrow> bool" where
  "isBigNumber (VBigNumber n) = True"
| "isBigNumber _ = False"

fun isArrayValue :: "jsval \<Rightarrow> bool" where
  "isArrayValue (VArray vs) = True"
| "isArrayValue _ = False"

fun element_at :: "jsval \<Rightarrow> nat \<Rightarrow> jsval" where
  "element_at (VArray vs) i = (if i < length vs then vs ! i else VUndefined)"
| "element_at _ i = VUndefined"

fun stringified :: "jsval \<Rightarrow> jsval" where
  "stringified (VBigNumber n) = VString (string_of_int n)"
| "stringified v = v"

definition output_key :: "abi_param \<Rightarrow> nat \<Rightarrow> string" where
  "output_key output index =
     (case param_name output of
        None \<Rightarrow> ''output_'' @ string_of_nat index
      | Some n \<Rightarrow> if n \<noteq> [] then n else ''output_'' @ string_of_nat index)"

fun is_primitive :: "jsval \<Rightarrow> bool" where
  "is_primitive VUndefined = True"
| "is_primitive (VBool b) = True"
| "is_primitive (VNumber n) = True"
| "is_primitive (VString v) = True"
| "is_primitive _ = False"

text \<open>
  \<open>formattedResult[name] = v\<close> on the object under construction. As for a dictionary of
  texts, the name \<open>__proto__\<close> reaches the setter of \<open>Object.prototype\<close>: a primitive is
  ignored. An object or \<open>null\<close> would become the prototype of the result; what the later
  assignments then do depends on that object, and the model stops there with \<open>None\<close>.
\<close>

definition assign_value ::
  "(string \<times> jsval) list \<Rightarrow> string \<Rightarrow> jsval \<Rightarrow> (string \<times> jsval) list option" where
  "assign_value props k v =
     (if k = ''__proto__'' \<and> map_of props k = None
      then (if is_primitive v then Some props else None)
      else Some (AList.update k v props))"

text \<open>The \<open>forEach\<close> over the output definitions, from the given index on.\<close>

fun format_outputs ::
  "abi_param list \<Rightarrow> nat \<Rightarrow> jsval \<Rightarrow> (string \<times> jsval) list
     \<Rightarrow> (string \<times> jsval) list option" where
  "format_outputs [] index result props = Some props"
| "format_outputs (output # rest) index result props =
     (case assign_value props (output_key output index)
             (stringified (element_at result index)) of
        None \<Rightarrow> None
      | Some props' \<Rightarrow> format_outputs rest (Suc index) result props')"

text \<open>
  \<open>_formatResult\<close>: \<open>Returned v\<close> is the value returned; \<open>PrototypeReplaced\<close> marks the
  case that the model leaves open.
\<close>

datatype formatted = Returned jsval | PrototypeReplaced

definition formatResult :: "jsval \<Rightarrow> abi_param list option \<Rightarrow> formatted" where
  "formatResult result outputDefinitions =
     (if isBigNumber result then Returned (stringified result)
      else case outputDefinitions of
        None \<Rightarrow> Returned result
      | Some outs \<Rightarrow>
          if isArrayValue result \<and> length outs > 1 then
            (case format_outputs outs 0 result [] of
               None \<Rightarrow> PrototypeReplaced
             | Some props \<Rightarrow> Returned (VObject props))
          else Returned result)"

subsection \<open>The library in the examples\<close>

text \<open>
  The library of the examples: ethers in its version 5, as far as the examples ask it.
  \<^item> \<open>isAddress\<close>: an address is accepted when it is \<open>0x\<close> followed by 40 digits or
    lowercase letters \<open>a\<close> to \<open>f\<close>. The library asks for a checksum only of an
    address that mixes upper and lower case, and such addresses are not modelled: the
    model refuses them all.
  \<^item> \<open>accepts\<close>: an ABI is refused when one of its function entries fails the
    library's \<open>verifyState\<close>, that is when its \<open>constant\<close> or \<open>payable\<close> field
    contradicts its \<open>stateMutability\<close>, or when no mutability can be determined. The
    library's other reasons to refuse an ABI (a malformed name or parameter type) are
    not modelled.
  \<^item> \<open>exposes\<close>: an instance has a function under a bare name when its ABI has
    exactly one function entry of that name; the library attaches no bare name to
    overloaded functions. An ABI that repeats an entry, and a function that is named
    like a member of the instance itself (\<open>address\<close>, \<open>signer\<close>), are not modelled.
  \<^item> \<open>parseEther\<close>: the library's \<open>parseFixed\<close> with 18 decimals.
\<close>

definition is_lower_hex :: "char \<Rightarrow> bool" where
  "is_lower_hex c = (c \<in> set ''0123456789abcdef'')"

definition lowercase_address :: "string \<Rightarrow> bool" where
  "lowercase_address a =
     (length a = 42 \<and> take 2 a = ''0x'' \<and> list_all is_lower_hex (drop 2 a))"

definition verifyState :: "abi_item \<Rightarrow> bool" where
  "verifyState item =
     (case stateMutability item of
        Some m \<Rightarrow>
          (case constantFlag item of
             None \<Rightarrow> True
           | Some k \<Rightarrow> k = (m = ''view'' \<or> m = ''pure''))
          \<and> (case payable item of
                None \<Rightarrow> True
              | Some p \<Rightarrow> p = (m = ''payable''))
      | None \<Rightarrow>
          (case payable item of
             Some p \<Rightarrow> \<not> (constantFlag item = None \<and> \<not> p)
                        \<and> \<not> (p \<and> constantFlag item = Some True)
           | None \<Rightarrow> constantFlag item \<noteq> None))"

definition accepts_abi :: "abi_item list \<Rightarrow> bool" where
  "accepts_abi items =
     list_all (\<lambda>item. item_type item = Some ''function'' \<longrightarrow> verifyState item) items"

definition exposes_name :: "abi_item list \<Rightarrow> string \<Rightarrow> bool" where
  "exposes_name items n =
     (length (filter (\<lambda>item. item_type item = Some ''function'' \<and> item_name item = Some n)
                items) = 1)"

fun split_on :: "char \<Rightarrow> string \<Rightarrow> string list" where
  "split_on c [] = [[]]"
| "split_on c (x # xs) =
     (if x = c then [] # split_on c xs
      else (x # hd (split_on c xs)) # tl (split_on c xs))"

definition parseFixed18 :: "string \<Rightarrow> int option" where
  "parseFixed18 v =
     (let negative = (take 1 v = ''-'');
          u = (if negative then drop 1 v else v)
      in if u = [] \<or> \<not> list_all (\<lambda>c. is_digit c \<or> c = CHR ''.'') u then None
         else if u = ''.'' then None
         else
           (let comps = split_on (CHR ''.'') u in
            if length comps > 2 then None
            else
              (let whole = (if hd comps = [] then ''0'' else hd comps);
                   given = (if length comps = 2 \<and> comps ! 1 \<noteq> [] then comps ! 1 else ''0'');
                   fraction = rev (dropWhile (\<lambda>c. c = CHR ''0'') (rev given))
               in if length fraction > 18 then None
                  else
                    (let digits = (if fraction = [] then ''0'' else fraction);
                         padded = digits @ replicate (18 - length digits) (CHR ''0'');
                         wei = int_of_digits whole * 1000000000000000000
                               + int_of_digits padded
                     in Some (if negative then - wei else wei)))))"

definition ethers :: library where
  "ethers = \<lparr>isAddress = lowercase_address, accepts = accepts_abi,
             exposes = exposes_name, parseEther = parseFixed18\<rparr>"

subsection \<open>Example contracts\<close>

text \<open>
  A token ABI with an event, a view function and a nonpayable function, set on a new
  interactor after an address, once with a wallet that offers only a provider and once
  with a wallet that offers a signer too.

  \<open>total_abi\<close> declares \<open>total\<close> as a view function. \<open>flagged_abi\<close> declares \<open>total\<close>
  as nonpayable with the legacy flag \<open>constant: true\<close>, and a view function \<open>supply\<close>;
  the library refuses it. \<open>stale_reader\<close> is the interactor after \<open>total_abi\<close> and then
  \<open>flagged_abi\<close> have been set: its ABI is \<open>flagged_abi\<close> and its instance is still the
  one made from \<open>total_abi\<close>.
\<close>

definition token_abi :: "abi_item list" where
  "token_abi =
     [\<lparr>item_type = Some ''event'', item_name = Some ''Transfer'', stateMutability = None,
       inputs = Some [], outputs = None, constantFlag = None, payable = None\<rparr>,
      \<lparr>item_type = Some ''function'', item_name = Some ''balanceOf'',
       stateMutability = Some ''view'',
       inputs = Some [\<lparr>param_name = Some ''owner'', param_type = ''address''\<rparr>],
       outputs = Some [\<lparr>param_name = Some '''', param_type = ''uint256''\<rparr>],
       constantFlag = None, payable = None\<rparr>,
      \<lparr>item_type = Some ''function'', item_name = Some ''transfer'',
       stateMutability = Some ''nonpayable'',
       inputs = Some [\<lparr>param_name = Some ''to'', param_type = ''address''\<rparr>,
                      \<lparr>param_name = Some ''amount'', param_type = ''uint256''\<rparr>],
       outputs = Some [\<lparr>param_name = Some '''', param_type = ''bool''\<rparr>],
       constantFlag = None, payable = None\<rparr>]"

definition token_address :: string where
  "token_address = ''0xabc1230000000000000000000000000000000000''"

definition read_only_wallet :: wallet where
  "read_only_wallet = \<lparr>provider = True, signer = False, connects = True\<rparr>"


definition total_abi :: "abi_item list" where
  "total_abi =
     [\<lparr>item_type = Some ''function'', item_name = Some ''total'',
       stateMutability = Some ''view'', inputs = Some [],
       outputs = Some [\<lparr>param_name = Some '''', param_type = ''uint256''\<rparr>],
       constantFlag = None, payable = None\<rparr>]"

definition flagged_abi :: "abi_item list" where
  "flagged_abi =
     [\<lparr>item_type = Some ''function'', item_name = Some ''total'',
       stateMutability = Some ''nonpayable'', inputs = Some [],
       outputs = Some [\<lparr>param_name = Some '''', param_type = ''uint256''\<rparr>],
       constantFlag = Some True, payable = None\<rparr>,
      \<lparr>item_type = Some ''function'', item_name = Some ''supply'',
       stateMutability = Some ''view'', inputs = Some [],
       outputs = Some [\<lparr>param_name = Some '''', param_type = ''uint256''\<rparr>],
       constantFlag = None, payable = None\<rparr>]"

definition token_reader :: contract_interactor where
  "token_reader =
     snd (setAbi ethers read_only_wallet token_abi
       (snd (setContractAddress ethers read_only_wallet token_address
          ContractInteractor_new)))"


definition stale_reader :: contract_interactor where
  "stale_reader =
     snd (setAbi ethers read_only_wallet flagged_abi
       (snd (setAbi ethers read_only_wallet total_abi
          (snd (setContractAddress ethers read_only_wallet token_address
             ContractInteractor_new)))))"

section \<open>Properties of HistoryManager\<close>

subsection \<open>Array facts\<close>

lemma slice_from_0: "slice xs 0 (int n) = take n xs"
  by (simp add: slice_def relative_index_def Let_def min_def)

lemma splice_one:
  assumes "0 \<le> i" and "i < int (length xs)"
  shows "splice xs i 1 = take (nat i) xs @ drop (Suc (nat i)) xs"
proof -
  have k: "relative_index (length xs) i = nat i"
    using assms by (simp add: relative_index_def)
  have "min (nat (max (1::int) 0)) (length xs - nat i) = 1"
    using assms by (simp add: min_def) linarith
  then show ?thesis
    by (simp add: splice_def k Let_def)
qed

subsection \<open>The capped history\<close>

lemma history_addToHistory:
  "history (snd (addToHistory w x s)) = take maxHistoryItems (x # history s)"
  unfolding addToHistory_def saveHistory_def unshift_def slice_from_0 Let_def
  by simp

lemma take_append_take: "take n (xs @ take n ys) = take n (xs @ ys)"
  by (simp add: min_def)

lemma history_addAll:
  "length (history s) \<le> maxHistoryItems \<Longrightarrow>
   history (addAll xs s) = take maxHistoryItems (rev xs @ history s)"
proof (induction xs arbitrary: s)
  case Nil
  then show ?case by simp
next
  case (Cons x xs)
  have "length (history (snd (addToHistory True x s))) \<le> maxHistoryItems"
    by (simp add: history_addToHistory)
  then have "history (addAll (x # xs) s) =
        take maxHistoryItems (rev xs @ take maxHistoryItems (x # history s))"
    by (simp add: Cons.IH history_addToHistory)
  also have "\<dots> = take maxHistoryItems (rev xs @ x # history s)"
    by (rule take_append_take)
  finally show ?case by simp
qed

text \<open>
  Claim C1. On a history of at most 50 entries, \<open>addToHistory\<close> returns \<open>true\<close> and puts
  the new entry at the front; the entries behind it are the old ones in their order, cut
  so that at most 50 remain in all (the oldest is dropped when there were already 50).
  The length afterwards is \<open>min 50 (n + 1)\<close>, so never more than 50. Adding a sequence
  of entries one call each leaves the 50 most recently added of all entries, newest
  first: the first 50 of the added entries in reverse order followed by the old history.
\<close>

theorem addToHistory_cap:
  assumes "length (history s) \<le> 50"
  shows "fst (addToHistory w x s) = True
       \<and> history (snd (addToHistory w x s)) = take 50 (x # history s)
       \<and> hd (history (snd (addToHistory w x s))) = x
       \<and> tl (history (snd (addToHistory w x s))) = take 49 (history s)
       \<and> length (history (snd (addToHistory w x s))) = min 50 (Suc (length (history s)))
       \<and> length (history (snd (addToHistory w x s))) \<le> 50
       \<and> history (addAll xs s) = take 50 (rev xs @ history s)"
proof -
  have h: "history (snd (addToHistory w x s)) = take 50 (x # history s)"
    using history_addToHistory [of w x s] by (simp add: maxHistoryItems_def)
  have a: "history (addAll xs s) = take 50 (rev xs @ history s)"
    using history_addAll [of s xs] assms by (simp add: maxHistoryItems_def)
  have t: "take 50 (x # history s) = x # take 49 (history s)"
    by (simp add: take_Cons')
  show ?thesis
    unfolding h a t by (simp add: addToHistory_def min_def Let_def)
qed

text \<open>A full history \<open>1, \<dots>, 50\<close> and the new entry \<open>0\<close>: entry \<open>50\<close>, the oldest, goes.\<close>

theorem addToHistory_cap_witness:
  "length (history \<lparr>history = [1..<51], tx_history = None\<rparr>) \<le> 50
   \<and> history (snd (addToHistory True (0::nat) \<lparr>history = [1..<51], tx_history = None\<rparr>))
       = [0..<50]
   \<and> length (history (snd (addToHistory True (0::nat)
         \<lparr>history = [1..<51], tx_history = None\<rparr>))) = 50"
proof -
  have l: "length (history \<lparr>history = [1..<51], tx_history = None\<rparr>) \<le> 50"
    by simp
  have e: "take 50 (0 # [1..<51]) = [0..<50]"
    by code_simp
  show ?thesis
    using addToHistory_cap [OF l, of True 0 "[]"] e by simp
qed

text \<open>
  Claim C9. For an index that is negative or not less than the length of the history,
  \<open>deleteHistoryItem\<close> returns \<open>false\<close> and the manager is the same as before: the
  history and the stored document. For an index in range it returns \<open>true\<close> and the
  history loses exactly the entry at that index: the entries before it keep their
  positions and the entries after it move down by one. The new history is then saved
  (when the write to local storage goes through).
\<close>

theorem deleteHistoryItem_range:
  "(index < 0 \<or> int (length (history s)) \<le> index
      \<longrightarrow> deleteHistoryItem w index s = (False, s))
 \<and> (0 \<le> index \<and> index < int (length (history s))
      \<longrightarrow> fst (deleteHistoryItem w index s) = True
        \<and> history (snd (deleteHistoryItem w index s))
            = take (nat index) (history s) @ drop (Suc (nat index)) (history s)
        \<and> length (history (snd (deleteHistoryItem w index s))) = length (history s) - 1
        \<and> (\<forall>j < nat index. history (snd (deleteHistoryItem w index s)) ! j = history s ! j)
        \<and> (\<forall>j. nat index \<le> j \<and> Suc j < length (history s)
              \<longrightarrow> history (snd (deleteHistoryItem w index s)) ! j = history s ! Suc j)
        \<and> tx_history (snd (deleteHistoryItem w index s))
            = (if w then Some (history (snd (deleteHistoryItem w index s)))
               else tx_history s))"
proof (intro conjI impI)
  assume "index < 0 \<or> int (length (history s)) \<le> index"
  then show "deleteHistoryItem w index s = (False, s)"
    by (auto simp: deleteHistoryItem_def)
next
  assume r: "0 \<le> index \<and> index < int (length (history s))"
  then have d: "deleteHistoryItem w index s =
      (True, saveHistory w (s\<lparr>history :=
         take (nat index) (history s) @ drop (Suc (nat index)) (history s)\<rparr>))"
    by (simp add: deleteHistoryItem_def splice_one)
  have n: "nat index < length (history s)"
    using r by linarith
  show "fst (deleteHistoryItem w index s) = True"
    by (simp add: d)
  show h: "history (snd (deleteHistoryItem w index s))
            = take (nat index) (history s) @ drop (Suc (nat index)) (history s)"
    by (simp add: d saveHistory_def)
  show "length (history (snd (deleteHistoryItem w index s))) = length (history s) - 1"
    unfolding h using n by simp
  show "\<forall>j < nat index. history (snd (deleteHistoryItem w index s)) ! j = history s ! j"
    unfolding h using n by (simp add: nth_append)
  show "\<forall>j. nat index \<le> j \<and> Suc j < length (history s)
              \<longrightarrow> history (snd (deleteHistoryItem w index s)) ! j = history s ! Suc j"
    unfolding h using n by (auto simp add: nth_append min_def)
  show "tx_history (snd (deleteHistoryItem w index s))
            = (if w then Some (history (snd (deleteHistoryItem w index s)))
               else tx_history s)"
    unfolding d by (simp add: saveHistory_def)
qed

text \<open>Index 3 and index \<open>-1\<close> of a three-entry history are refused; index 1 removes 20.\<close>

theorem deleteHistoryItem_range_witness:
  "deleteHistoryItem True 3 \<lparr>history = [10, 20, 30 :: nat], tx_history = Some [10, 20, 30]\<rparr>
     = (False, \<lparr>history = [10, 20, 30], tx_history = Some [10, 20, 30]\<rparr>)
   \<and> deleteHistoryItem True (- 1) \<lparr>history = [10, 20, 30 :: nat], tx_history = None\<rparr>
     = (False, \<lparr>history = [10, 20, 30], tx_history = None\<rparr>)
   \<and> history (snd (deleteHistoryItem True 1
        \<lparr>history = [10, 20, 30 :: nat], tx_history = None\<rparr>)) = [10, 30]"
  using deleteHistoryItem_range
      [of 3 "\<lparr>history = [10, 20, 30 :: nat], tx_history = Some [10, 20, 30]\<rparr>" True]
    deleteHistoryItem_range
      [of "- 1" "\<lparr>history = [10, 20, 30 :: nat], tx_history = None\<rparr>" True]
    deleteHistoryItem_range
      [of 1 "\<lparr>history = [10, 20, 30 :: nat], tx_history = None\<rparr>" True]
  by simp

section \<open>Properties of the parser\<close>

lemma skip_ws_Cons_length: "skip_ws s = c # cs \<Longrightarrow> length cs < length s"
proof -
  assume a: "skip_ws s = c # cs"
  have "length (dropWhile is_ws s) \<le> length s"
    by (rule length_dropWhile_le)
  then show ?thesis using a by (simp add: skip_ws_def)
qed

lemma parse_string_chars_length:
  "parse_string_chars s = Some (t, r) \<Longrightarrow> length r < length s"
proof (induction s arbitrary: t r rule: parse_string_chars.induct)
  case 1
  then show ?case by simp
next
  case (2 c cs)
  show ?case
    using "2.prems" "2.IH"
    by (fastforce split: if_splits list.splits)
qed

lemma parse_digits_length:
  "parse_digits s = Some (t, r) \<Longrightarrow> length r < length s"
proof -
  assume a: "parse_digits s = Some (t, r)"
  then have ne: "takeWhile is_digit s \<noteq> []" and r: "r = dropWhile is_digit s"
    by (auto simp: parse_digits_def split: if_splits)
  have "length (takeWhile is_digit s) + length (dropWhile is_digit s) = length s"
    by (metis length_append takeWhile_dropWhile_id)
  moreover have "0 < length (takeWhile is_digit s)"
    using ne by simp
  ultimately show ?thesis
    unfolding r by linarith
qed

lemma parse_frac_length: "parse_frac s = Some (t, r) \<Longrightarrow> length r \<le> length s"
  by (auto simp: parse_frac_def split: list.splits if_splits dest!: parse_digits_length)

lemma parse_exp_length: "parse_exp s = Some (t, r) \<Longrightarrow> length r \<le> length s"
  by (auto simp: parse_exp_def split: list.splits if_splits dest!: parse_digits_length)

lemma parse_int_part_length: "parse_int_part s = Some (t, r) \<Longrightarrow> length r < length s"
  by (auto simp: parse_int_part_def split: list.splits if_splits dest!: parse_digits_length)

lemma parse_number_length: "parse_number s = Some (t, r) \<Longrightarrow> length r < length s"
  by (auto simp: parse_number_def Let_def split: list.splits if_splits option.splits prod.splits
      dest!: parse_int_part_length parse_frac_length parse_exp_length)

lemma take_Cons_nonempty: "take n s = x # xs \<Longrightarrow> 0 < length s"
  by (cases s) auto

lemma parse_literal_length: "parse_literal s = Some (v, r) \<Longrightarrow> length r < length s"
  by (auto simp: parse_literal_def split: if_splits
      dest!: parse_number_length take_Cons_nonempty)

text \<open>
  A successful parse leaves a shorter text and needs no more fuel than the number of
  characters it consumes.
\<close>

lemma parse_fuel:
  "(\<forall>v r. parse_value n s = Some (v, r) \<longrightarrow>
      length r < length s \<and> (\<forall>m. length s - length r \<le> m \<longrightarrow> parse_value m s = Some (v, r)))"
  "(\<forall>vs r. parse_elements n s = Some (vs, r) \<longrightarrow>
      length r < length s
      \<and> (\<forall>m. length s - length r \<le> m \<longrightarrow> parse_elements m s = Some (vs, r)))"
  "(\<forall>ms r. parse_members n s = Some (ms, r) \<longrightarrow>
      length r < length s
      \<and> (\<forall>m. length s - length r \<le> m \<longrightarrow> parse_members m s = Some (ms, r)))"
proof (induction n s and n s and n s rule: parse_value_parse_elements_parse_members.induct)
  case (1 s)
  then show ?case by simp
next
  case (2 n s)
  show ?case
  proof (intro allI impI)
    fix v r
    assume pv: "parse_value (Suc n) s = Some (v, r)"
    then obtain c cs where sk: "skip_ws s = c # cs"
      by (cases "skip_ws s") auto
    have lcs: "length cs < length s"
      using sk by (rule skip_ws_Cons_length)
    consider (arr) "c = CHR ''[''"
      | (obj) "c \<noteq> CHR ''[''" "c = CHR ''{''"
      | (str) "c \<noteq> CHR ''[''" "c \<noteq> CHR ''{''" "c = CHR 0x22"
      | (lit) "c \<noteq> CHR ''[''" "c \<noteq> CHR ''{''" "c \<noteq> CHR 0x22"
      by blast
    then show "length r < length s
        \<and> (\<forall>m. length s - length r \<le> m \<longrightarrow> parse_value m s = Some (v, r))"
    proof cases
      case arr
      from pv sk arr obtain d ds where sk2: "skip_ws cs = d # ds"
        by (cases "skip_ws cs") auto
      have lds: "length ds < length cs"
        using sk2 by (rule skip_ws_Cons_length)
      show ?thesis
      proof (cases "d = CHR '']''")
        case True
        then have vr: "v = JArray []" "r = ds"
          using pv sk arr sk2 by auto
        have "\<forall>m. length s - length r \<le> m \<longrightarrow> parse_value m s = Some (v, r)"
        proof (intro allI impI)
          fix m
          assume "length s - length r \<le> m"
          then obtain m' where "m = Suc m'"
            using lcs lds vr by (cases m) auto
          then show "parse_value m s = Some (v, r)"
            using sk arr sk2 True vr by simp
        qed
        then show ?thesis
          using lcs lds vr by simp
      next
        case False
        then obtain vs where pe: "parse_elements n cs = Some (vs, r)" and v: "v = JArray vs"
          using pv sk arr sk2 by auto
        have ih: "length r < length cs
            \<and> (\<forall>m. length cs - length r \<le> m \<longrightarrow> parse_elements m cs = Some (vs, r))"
          using "2.IH"(1) [OF sk arr sk2 False] pe by blast
        have "\<forall>m. length s - length r \<le> m \<longrightarrow> parse_value m s = Some (v, r)"
        proof (intro allI impI)
          fix m
          assume a: "length s - length r \<le> m"
          then obtain m' where m: "m = Suc m'"
            using lcs ih by (cases m) auto
          have "length cs - length r \<le> m'"
            using a m lcs by linarith
          then have "parse_elements m' cs = Some (vs, r)"
            using ih by blast
          then show "parse_value m s = Some (v, r)"
            using m sk arr sk2 False v by simp
        qed
        then show ?thesis
          using ih lcs by simp
      qed
    next
      case obj
      from pv sk obj obtain d ds where sk2: "skip_ws cs = d # ds"
        by (cases "skip_ws cs") auto
      have lds: "length ds < length cs"
        using sk2 by (rule skip_ws_Cons_length)
      show ?thesis
      proof (cases "d = CHR ''}''")
        case True
        then have vr: "v = JObject []" "r = ds"
          using pv sk obj sk2 by auto
        have "\<forall>m. length s - length r \<le> m \<longrightarrow> parse_value m s = Some (v, r)"
        proof (intro allI impI)
          fix m
          assume "length s - length r \<le> m"
          then obtain m' where "m = Suc m'"
            using lcs lds vr by (cases m) auto
          then show "parse_value m s = Some (v, r)"
            using sk obj sk2 True vr by simp
        qed
        then show ?thesis
          using lcs lds vr by simp
      next
        case False
        then obtain ms where pe: "parse_members n cs = Some (ms, r)" and v: "v = JObject ms"
          using pv sk obj sk2 by auto
        have ih: "length r < length cs
            \<and> (\<forall>m. length cs - length r \<le> m \<longrightarrow> parse_members m cs = Some (ms, r))"
          using "2.IH"(2) [OF sk obj sk2 False] pe by blast
        have "\<forall>m. length s - length r \<le> m \<longrightarrow> parse_value m s = Some (v, r)"
        proof (intro allI impI)
          fix m
          assume a: "length s - length r \<le> m"
          then obtain m' where m: "m = Suc m'"
            using lcs ih by (cases m) auto
          have "length cs - length r \<le> m'"
            using a m lcs by linarith
          then have "parse_members m' cs = Some (ms, r)"
            using ih by blast
          then show "parse_value m s = Some (v, r)"
            using m sk obj sk2 False v by simp
        qed
        then show ?thesis
          using ih lcs by simp
      qed
    next
      case str
      then obtain t where ps: "parse_string_chars cs = Some (t, r)" and v: "v = JString t"
        using pv sk by auto
      have lr: "length r < length cs"
        using ps by (rule parse_string_chars_length)
      have "\<forall>m. length s - length r \<le> m \<longrightarrow> parse_value m s = Some (v, r)"
      proof (intro allI impI)
        fix m
        assume "length s - length r \<le> m"
        then obtain m' where "m = Suc m'"
          using lcs lr by (cases m) auto
        then show "parse_value m s = Some (v, r)"
          using sk str ps v by simp
      qed
      then show ?thesis
        using lr lcs by simp
    next
      case lit
      then have pl: "parse_literal (c # cs) = Some (v, r)"
        using pv sk by simp
      have lr: "length r < length (c # cs)"
        using pl by (rule parse_literal_length)
      have "\<forall>m. length s - length r \<le> m \<longrightarrow> parse_value m s = Some (v, r)"
      proof (intro allI impI)
        fix m
        assume "length s - length r \<le> m"
        then obtain m' where "m = Suc m'"
          using lcs lr by (cases m) auto
        then show "parse_value m s = Some (v, r)"
          using sk lit pl by simp
      qed
      then show ?thesis
        using lr lcs by simp
    qed
  qed
next
  case (3 s)
  then show ?case by simp
next
  case (4 n s)
  show ?case
  proof (intro allI impI)
    fix vs r
    assume pe: "parse_elements (Suc n) s = Some (vs, r)"
    then obtain v r1 where pv: "parse_value n s = Some (v, r1)"
      by (cases "parse_value n s") auto
    have ih1: "length r1 < length s
        \<and> (\<forall>m. length s - length r1 \<le> m \<longrightarrow> parse_value m s = Some (v, r1))"
      using "4.IH"(1) pv by blast
    from pe pv obtain c cs where sk: "skip_ws r1 = c # cs"
      by (cases "skip_ws r1") auto
    have lcs: "length cs < length r1"
      using sk by (rule skip_ws_Cons_length)
    show "length r < length s
        \<and> (\<forall>m. length s - length r \<le> m \<longrightarrow> parse_elements m s = Some (vs, r))"
    proof (cases "c = CHR '',''")
      case True
      then obtain vs' where pe': "parse_elements n cs = Some (vs', r)" and vs: "vs = v # vs'"
        using pe pv sk by auto
      have ih2: "length r < length cs
          \<and> (\<forall>m. length cs - length r \<le> m \<longrightarrow> parse_elements m cs = Some (vs', r))"
        using "4.IH"(2) [OF pv refl sk True] pe' by blast
      have "\<forall>m. length s - length r \<le> m \<longrightarrow> parse_elements m s = Some (vs, r)"
      proof (intro allI impI)
        fix m
        assume a: "length s - length r \<le> m"
        then obtain m' where m: "m = Suc m'"
          using lcs ih1 ih2 by (cases m) auto
        have "length s - length r1 \<le> m'" and "length cs - length r \<le> m'"
          using a m lcs ih1 ih2 by linarith+
        then have "parse_value m' s = Some (v, r1)" and "parse_elements m' cs = Some (vs', r)"
          using ih1 ih2 by blast+
        then show "parse_elements m s = Some (vs, r)"
          using m sk True vs by simp
      qed
      then show ?thesis
        using ih1 ih2 lcs by simp
    next
      case False
      then have vr: "c = CHR '']''" "vs = [v]" "r = cs"
        using pe pv sk by (auto split: if_splits)
      have "\<forall>m. length s - length r \<le> m \<longrightarrow> parse_elements m s = Some (vs, r)"
      proof (intro allI impI)
        fix m
        assume a: "length s - length r \<le> m"
        then obtain m' where m: "m = Suc m'"
          using lcs ih1 vr by (cases m) auto
        have "length s - length r1 \<le> m'"
          using a m lcs ih1 unfolding vr(3) by linarith
        then have "parse_value m' s = Some (v, r1)"
          using ih1 by blast
        then show "parse_elements m s = Some (vs, r)"
          using m sk False vr by simp
      qed
      then show ?thesis
        using ih1 lcs vr by simp
    qed
  qed
next
  case (5 s)
  then show ?case by simp
next
  case (6 n s)
  show ?case
  proof (intro allI impI)
    fix ms r
    assume pm: "parse_members (Suc n) s = Some (ms, r)"
    then obtain q qs where sk1: "skip_ws s = q # qs"
      by (cases "skip_ws s") auto
    have q: "\<not> q \<noteq> CHR 0x22"
      using pm sk1 by (auto split: if_splits)
    from pm sk1 q obtain k r0 where ps: "parse_string_chars qs = Some (k, r0)"
      by (cases "parse_string_chars qs") auto
    from pm sk1 q ps obtain c cs where sk2: "skip_ws r0 = c # cs"
      by (cases "skip_ws r0") auto
    have c: "\<not> c \<noteq> CHR '':''"
      using pm sk1 q ps sk2 by (auto split: if_splits)
    from pm sk1 q ps sk2 c obtain v r1 where pv: "parse_value n cs = Some (v, r1)"
      by (cases "parse_value n cs") auto
    from pm sk1 q ps sk2 c pv obtain e es where sk3: "skip_ws r1 = e # es"
      by (cases "skip_ws r1") auto
    have l: "length qs < length s" "length r0 < length qs" "length cs < length r0"
      "length es < length r1"
      using sk1 ps sk2 sk3 by (auto intro: skip_ws_Cons_length parse_string_chars_length)
    have ih1: "length r1 < length cs
        \<and> (\<forall>m. length cs - length r1 \<le> m \<longrightarrow> parse_value m cs = Some (v, r1))"
      using "6.IH"(1) [OF sk1 q ps refl sk2 c] pv by blast
    show "length r < length s
        \<and> (\<forall>m. length s - length r \<le> m \<longrightarrow> parse_members m s = Some (ms, r))"
    proof (cases "e = CHR '',''")
      case True
      then obtain ms' where pm': "parse_members n es = Some (ms', r)"
        and ms: "ms = (k, v) # ms'"
        using pm sk1 q ps sk2 c pv sk3 by auto
      have ih2: "length r < length es
          \<and> (\<forall>m. length es - length r \<le> m \<longrightarrow> parse_members m es = Some (ms', r))"
        using "6.IH"(2) [OF sk1 q ps refl sk2 c pv refl sk3 True] pm' by blast
      have "\<forall>m. length s - length r \<le> m \<longrightarrow> parse_members m s = Some (ms, r)"
      proof (intro allI impI)
        fix m
        assume a: "length s - length r \<le> m"
        then obtain m' where m: "m = Suc m'"
          using l ih1 ih2 by (cases m) auto
        have "length cs - length r1 \<le> m'" and "length es - length r \<le> m'"
          using a m l ih1 ih2 by linarith+
        then have "parse_value m' cs = Some (v, r1)" and "parse_members m' es = Some (ms', r)"
          using ih1 ih2 by blast+
        then show "parse_members m s = Some (ms, r)"
          using m sk1 q ps sk2 c sk3 True ms by simp
      qed
      then show ?thesis
        using ih1 ih2 l by simp
    next
      case False
      then have vr: "e = CHR ''}''" "ms = [(k, v)]" "r = es"
        using pm sk1 q ps sk2 c pv sk3 by (auto split: if_splits)
      have "\<forall>m. length s - length r \<le> m \<longrightarrow> parse_members m s = Some (ms, r)"
      proof (intro allI impI)
        fix m
        assume a: "length s - length r \<le> m"
        then obtain m' where m: "m = Suc m'"
          using l ih1 vr by (cases m) auto
        have "length cs - length r1 \<le> m'"
          using a m l ih1 unfolding vr(3) by linarith
        then have "parse_value m' cs = Some (v, r1)"
          using ih1 by blast
        then show "parse_members m s = Some (ms, r)"
          using m sk1 q ps sk2 c sk3 False vr by simp
      qed
      then show ?thesis
        using ih1 l vr by simp
    qed
  qed
qed

text \<open>So the fuel of \<open>JSON_parse\<close> is enough: what parses with any fuel parses with it.\<close>

lemma JSON_parse_fuel:
  "parse_value n s = Some (v, r) \<Longrightarrow> skip_ws r = [] \<Longrightarrow> JSON_parse s = Some v"
proof -
  assume a: "parse_value n s = Some (v, r)" and b: "skip_ws r = []"
  have "length s - length r \<le> Suc (length s)"
    by simp
  then have "parse_value (Suc (length s)) s = Some (v, r)"
    using parse_fuel(1) [of n s] a by blast
  then show ?thesis
    using b by (simp add: JSON_parse_def)
qed

section \<open>Properties of AbiManager\<close>

subsection \<open>Parsing, keys and assignment\<close>

lemma JSON_parse_Nil: "JSON_parse [] = None"
  by (simp add: JSON_parse_def skip_ws_def)

lemma JSON_parse_nonempty: "JSON_parse text \<noteq> None \<Longrightarrow> text \<noteq> []"
  using JSON_parse_Nil by auto

lemma length_Object_keys: "length (Object_keys props) = length props"
proof -
  have "length (filter is_array_index (map fst props))
        + length (filter (\<lambda>k. \<not> is_array_index k) (map fst props)) = length (map fst props)"
    by (rule sum_length_filter_compl)
  then show ?thesis by (simp add: Object_keys_def)
qed

lemma set_Object_keys: "set (Object_keys props) = fst ` set props"
  by (auto simp: Object_keys_def)

lemma Object_keys_cong: "map fst props = map fst props' \<Longrightarrow> Object_keys props = Object_keys props'"
  by (simp add: Object_keys_def)

lemma map_of_assign_text:
  "name \<noteq> ''__proto__'' \<or> map_of props name \<noteq> None \<Longrightarrow>
   map_of (assign_text props name v) = (map_of props)(name \<mapsto> v)"
  by (auto simp: assign_text_def update_conv')

lemma map_of_assign_text_other:
  "other \<noteq> name \<Longrightarrow> map_of (assign_text props name v) other = map_of props other"
  by (simp add: assign_text_def update_conv')

lemma keys_assign_text_present:
  "name \<in> fst ` set props \<Longrightarrow> map fst (assign_text props name v) = map fst props"
  by (simp add: assign_text_def update_keys)

lemma get_property_Value: "map_of props name = Some v \<Longrightarrow> get_property props name = Value v"
  by (simp add: get_property_def)

lemma get_property_cong:
  "map_of props name = map_of props' name \<Longrightarrow> get_property props name = get_property props' name"
  by (simp add: get_property_def)

lemma savedAbis_saveAbi:
  "JSON_parse text \<noteq> None \<Longrightarrow>
   savedAbis (snd (saveAbi w name text s)) = assign_text (savedAbis s) name text"
  by (auto simp: saveAbi_def Let_def)

lemma fst_saveAbi:
  "JSON_parse text \<noteq> None \<Longrightarrow>
   fst (saveAbi w name text s) = (if w then Inr True else Inl InvalidAbiFormat)"
  by (auto simp: saveAbi_def Let_def)

subsection \<open>Some texts\<close>

lemma parse_array_1: "JSON_parse ''[1]'' = Some (JArray [JNumber ''1''])"
  by code_simp

lemma parse_empty_array: "JSON_parse ''[]'' = Some (JArray [])"
  by code_simp

lemma parse_empty_object: "JSON_parse ''{}'' = Some (JObject [])"
  by code_simp

lemma parse_unclosed: "JSON_parse ''[1,'' = None"
  by code_simp

subsection \<open>Saving\<close>

text \<open>
  Claim C7. When \<open>name\<close> is already a saved name and \<open>text\<close> parses as JSON, after
  \<open>saveAbi(name, text)\<close> the entry for \<open>name\<close> holds \<open>text\<close> and \<open>getAbiByName(name)\<close>
  returns it; under every other name the entry and the result of \<open>getAbiByName\<close> are what
  they were; \<open>getSavedAbisList\<close> returns the same list of names, so the same number of
  them. This holds whether or not the write to local storage goes through; when it does,
  \<open>saveAbi\<close> returns \<open>true\<close>.
\<close>

theorem saveAbi_overwrite:
  assumes "name \<in> fst ` set (savedAbis s)" and "JSON_parse text \<noteq> None"
  shows "fst (saveAbi w name text s) = (if w then Inr True else Inl InvalidAbiFormat)
       \<and> map_of (savedAbis (snd (saveAbi w name text s))) name = Some text
       \<and> getAbiByName (snd (saveAbi w name text s)) name = Value text
       \<and> (\<forall>other. other \<noteq> name \<longrightarrow>
             map_of (savedAbis (snd (saveAbi w name text s))) other
               = map_of (savedAbis s) other
           \<and> getAbiByName (snd (saveAbi w name text s)) other = getAbiByName s other)
       \<and> getSavedAbisList (snd (saveAbi w name text s)) = getSavedAbisList s
       \<and> length (getSavedAbisList (snd (saveAbi w name text s)))
           = length (getSavedAbisList s)"
proof -
  let ?s' = "snd (saveAbi w name text s)"
  have sv: "savedAbis ?s' = assign_text (savedAbis s) name text"
    using assms(2) by (rule savedAbis_saveAbi)
  have own: "map_of (savedAbis s) name \<noteq> None"
    using assms(1) by (simp add: map_of_eq_None_iff)
  have m: "map_of (savedAbis ?s') name = Some text"
    unfolding sv using own by (simp add: map_of_assign_text)
  have ne: "text \<noteq> []"
    using assms(2) by (rule JSON_parse_nonempty)
  have g: "getAbiByName ?s' name = Value text"
    using get_property_Value [OF m] ne by (simp add: getAbiByName_def)
  have o: "\<forall>other. other \<noteq> name \<longrightarrow>
             map_of (savedAbis ?s') other = map_of (savedAbis s) other
           \<and> getAbiByName ?s' other = getAbiByName s other"
  proof (intro allI impI)
    fix other :: string
    assume d: "other \<noteq> name"
    have e: "map_of (savedAbis ?s') other = map_of (savedAbis s) other"
      unfolding sv using d by (rule map_of_assign_text_other)
    have "get_property (savedAbis ?s') other = get_property (savedAbis s) other"
      using e by (rule get_property_cong)
    then show "map_of (savedAbis ?s') other = map_of (savedAbis s) other
           \<and> getAbiByName ?s' other = getAbiByName s other"
      using e by (simp add: getAbiByName_def)
  qed
  have k: "getSavedAbisList ?s' = getSavedAbisList s"
    unfolding getSavedAbisList_def sv
    by (rule Object_keys_cong) (rule keys_assign_text_present [OF assms(1)])
  show ?thesis
    using fst_saveAbi [OF assms(2)] m g o k by simp
qed

text \<open>Two saved names; \<open>Token\<close> is saved again with another text.\<close>

theorem saveAbi_overwrite_witness:
  "''Token'' \<in> fst ` set (savedAbis \<lparr>savedAbis = [(''Token'', ''[]''), (''Other'', ''{}'')], saved_abis = None\<rparr>)
   \<and> JSON_parse ''[1]'' \<noteq> None
   \<and> getAbiByName (snd (saveAbi True ''Token'' ''[1]''
        \<lparr>savedAbis = [(''Token'', ''[]''), (''Other'', ''{}'')], saved_abis = None\<rparr>)) ''Token''
      = Value ''[1]''
   \<and> getAbiByName (snd (saveAbi True ''Token'' ''[1]''
        \<lparr>savedAbis = [(''Token'', ''[]''), (''Other'', ''{}'')], saved_abis = None\<rparr>)) ''Other''
      = Value ''{}''
   \<and> length (getSavedAbisList (snd (saveAbi True ''Token'' ''[1]''
        \<lparr>savedAbis = [(''Token'', ''[]''), (''Other'', ''{}'')], saved_abis = None\<rparr>))) = 2"
proof -
  let ?s = "\<lparr>savedAbis = [(''Token'', ''[]''), (''Other'', ''{}'')], saved_abis = None\<rparr>"
  have a: "''Token'' \<in> fst ` set (savedAbis ?s)" by simp
  have b: "JSON_parse ''[1]'' \<noteq> None" by (simp add: parse_array_1)
  have c: "getAbiByName ?s ''Other'' = Value ''{}''"
    by (simp add: getAbiByName_def get_property_def)
  have d: "length (getSavedAbisList ?s) = 2"
    by (simp add: getSavedAbisList_def length_Object_keys)
  show ?thesis
    using saveAbi_overwrite [OF a b, of True] a b c d by simp
qed

lemma snd_saveAbi_invalid: "JSON_parse text = None \<Longrightarrow> saveAbi w name text s = (Inl InvalidAbiFormat, s)"
  by (simp add: saveAbi_def)

lemma saved_abis_saveAbi:
  "JSON_parse text \<noteq> None \<Longrightarrow>
   saved_abis (snd (saveAbi w name text s))
     = (if w then Some (assign_text (savedAbis s) name text) else saved_abis s)"
  by (auto simp: saveAbi_def Let_def)

lemma validateAbi_iff: "validateAbi text \<longleftrightarrow> (\<exists>xs. JSON_parse text = Some (JArray xs))"
  by (auto simp: validateAbi_def split: option.splits json.splits)

subsection \<open>Saving and reading back\<close>

text \<open>
  Under every name but \<open>__proto__\<close> (and under \<open>__proto__\<close> too when the object has it as
  an own property) a saved array text is read back as it was written.
\<close>

lemma saveAbi_roundtrip:
  assumes "name \<noteq> ''__proto__'' \<or> name \<in> fst ` set (savedAbis s)"
    and "JSON_parse text = Some (JArray xs)"
    and "fst (saveAbi w name text s) = Inr True"
  shows "getAbiByName (snd (saveAbi w name text s)) name = Value text"
proof -
  have p: "JSON_parse text \<noteq> None" using assms(2) by simp
  have "name \<noteq> ''__proto__'' \<or> map_of (savedAbis s) name \<noteq> None"
    using assms(1) by (auto simp: map_of_eq_None_iff)
  then have "map_of (savedAbis (snd (saveAbi w name text s))) name = Some text"
    by (simp add: savedAbis_saveAbi [OF p] map_of_assign_text)
  then show ?thesis
    using JSON_parse_nonempty [OF p] by (simp add: getAbiByName_def get_property_Value)
qed

text \<open>
  Claim C2 says that after a successful \<open>saveAbi(name, text)\<close> with a text that parses
  as a JSON array, \<open>getAbiByName(name)\<close> returns the text, for every name. On a new
  manager, \<open>saveAbi("__proto__", "[]")\<close> returns \<open>true\<close>, yet the assignment
  \<open>savedAbis["__proto__"] = "[]"\<close> reaches the setter of \<open>Object.prototype\<close>, which drops
  a string: nothing is stored, the document written to local storage is the empty object,
  and \<open>getAbiByName("__proto__")\<close> returns the prototype object, not the text.
\<close>

theorem saveAbi_proto_not_stored:
  "JSON_parse ''[]'' = Some (JArray [])
   \<and> saveAbi True ''__proto__'' ''[]'' AbiManager_new
       = (Inr True, \<lparr>savedAbis = [], saved_abis = Some []\<rparr>)
   \<and> getAbiByName (snd (saveAbi True ''__proto__'' ''[]'' AbiManager_new)) ''__proto__''
       = Builtin ''__proto__''
   \<and> getAbiByName (snd (saveAbi True ''__proto__'' ''[]'' AbiManager_new)) ''__proto__''
       \<noteq> Value ''[]''"
  by (simp add: parse_empty_array saveAbi_def AbiManager_new_def assign_text_def
      getAbiByName_def get_property_def Object_prototype_keys_def)

subsection \<open>What saveAbi accepts\<close>

text \<open>
  For every name and every text: \<open>saveAbi\<close> throws the invalid-format error exactly
  when the text does not parse as JSON or the write to local storage throws. A text that
  does not parse leaves the manager as it was. A text that parses, an array or not, is
  stored in \<open>savedAbis\<close> under every name but \<open>__proto__\<close>, and \<open>getAbiByName\<close>
  returns it; when the write goes through as well, \<open>saveAbi\<close> returns \<open>true\<close> and the
  stored document is the new \<open>savedAbis\<close>. \<open>validateAbi\<close> is true exactly for the
  texts that parse to an array, and \<open>saveAbi\<close> does not ask it: no conjunct above
  depends on it.
\<close>

lemma saveAbi_any_json:
  "(fst (saveAbi w name text s) = Inl InvalidAbiFormat
            \<longleftrightarrow> JSON_parse text = None \<or> \<not> w)
       \<and> (JSON_parse text = None \<longrightarrow> snd (saveAbi w name text s) = s)
       \<and> (JSON_parse text \<noteq> None \<and> name \<noteq> ''__proto__'' \<longrightarrow>
             map_of (savedAbis (snd (saveAbi w name text s))) name = Some text
           \<and> getAbiByName (snd (saveAbi w name text s)) name = Value text)
       \<and> (JSON_parse text \<noteq> None \<and> w \<longrightarrow>
             fst (saveAbi w name text s) = Inr True
           \<and> saved_abis (snd (saveAbi w name text s))
               = Some (savedAbis (snd (saveAbi w name text s))))
       \<and> (validateAbi text \<longleftrightarrow> (\<exists>xs. JSON_parse text = Some (JArray xs)))"
proof (cases "JSON_parse text = None")
  case True
  then show ?thesis
    by (simp add: snd_saveAbi_invalid validateAbi_iff)
next
  case False
  have m: "map_of (savedAbis (snd (saveAbi w name text s))) name = Some text"
    if "name \<noteq> ''__proto__''"
    using that by (simp add: savedAbis_saveAbi [OF False] map_of_assign_text)
  have g: "getAbiByName (snd (saveAbi w name text s)) name = Value text"
    if "name \<noteq> ''__proto__''"
    using JSON_parse_nonempty [OF False] m [OF that]
    by (simp add: getAbiByName_def get_property_Value)
  have r: "fst (saveAbi w name text s) = Inl InvalidAbiFormat \<longleftrightarrow> \<not> w"
    by (simp add: fst_saveAbi [OF False])
  have t: "w \<longrightarrow> fst (saveAbi w name text s) = Inr True
           \<and> saved_abis (snd (saveAbi w name text s))
               = Some (savedAbis (snd (saveAbi w name text s)))"
    by (simp add: fst_saveAbi [OF False] saved_abis_saveAbi [OF False]
        savedAbis_saveAbi [OF False])
  show ?thesis
    using False m g r t validateAbi_iff [of "text"] by blast
qed

text \<open>
  The text \<open>{}\<close> parses, is not an array, and is saved; the text \<open>[1,\<close> is refused.
\<close>

lemma saveAbi_any_json_example:
  "JSON_parse ''{}'' = Some (JObject []) \<and> \<not> validateAbi ''{}''
   \<and> saveAbi True ''Config'' ''{}'' AbiManager_new
       = (Inr True, \<lparr>savedAbis = [(''Config'', ''{}'')],
                     saved_abis = Some [(''Config'', ''{}'')]\<rparr>)
   \<and> getAbiByName (snd (saveAbi True ''Config'' ''{}'' AbiManager_new)) ''Config''
       = Value ''{}''
   \<and> JSON_parse ''[1,'' = None
   \<and> saveAbi True ''Config'' ''[1,'' AbiManager_new = (Inl InvalidAbiFormat, AbiManager_new)"
proof -
  have e: "saveAbi True ''Config'' ''{}'' AbiManager_new
       = (Inr True, \<lparr>savedAbis = [(''Config'', ''{}'')],
                     saved_abis = Some [(''Config'', ''{}'')]\<rparr>)"
    by (simp add: saveAbi_def parse_empty_object AbiManager_new_def assign_text_def)
  have f: "saveAbi True ''Config'' ''[1,'' AbiManager_new = (Inl InvalidAbiFormat, AbiManager_new)"
    by (simp add: saveAbi_def parse_unclosed)
  show ?thesis
    using saveAbi_any_json [of True "''Config''" "''{}''" AbiManager_new]
      saveAbi_any_json [of True "''Config''" "''[1,''" AbiManager_new]
      parse_empty_object parse_unclosed e f
    by simp
qed

text \<open>
  Claim C6 says that \<open>saveAbi\<close> throws the invalid-format error if and only if the text
  does not parse as JSON. The text \<open>[]\<close> parses, and \<open>saveAbi("Token", "[]")\<close> on a
  new manager still throws the invalid-format error when the write to local storage
  throws: the \<open>try\<close> block that is there for the parser covers the write as well, and
  its \<open>catch\<close> reports every exception as an invalid format. The entry is by then in
  \<open>savedAbis\<close>, where \<open>getAbiByName\<close> finds it, and local storage holds no document.
\<close>

theorem saveAbi_write_failure:
  "JSON_parse ''[]'' = Some (JArray [])
   \<and> validateAbi ''[]''
   \<and> saveAbi False ''Token'' ''[]'' AbiManager_new
       = (Inl InvalidAbiFormat,
          \<lparr>savedAbis = [(''Token'', ''[]'')], saved_abis = None\<rparr>)
   \<and> getAbiByName (snd (saveAbi False ''Token'' ''[]'' AbiManager_new)) ''Token''
       = Value ''[]''"
  by (simp add: parse_empty_array saveAbi_def validateAbi_def AbiManager_new_def
      assign_text_def getAbiByName_def get_property_def)

subsection \<open>Deleting\<close>

text \<open>
  A name that is neither saved nor a member of \<open>Object.prototype\<close> is refused and
  nothing changes; a saved name with a non-empty text is removed, and only it.
\<close>

lemma deleteAbi_absent:
  assumes "name \<notin> fst ` set (savedAbis s)" and "name \<notin> set Object_prototype_keys"
  shows "deleteAbi w name s = (Inr False, s)"
proof -
  have "map_of (savedAbis s) name = None"
    using assms(1) by (simp add: map_of_eq_None_iff)
  then show ?thesis
    using assms(2) by (simp add: deleteAbi_def get_property_def)
qed

lemma deleteAbi_present:
  assumes "map_of (savedAbis s) name = Some text" and "text \<noteq> []"
  shows "fst (deleteAbi True name s) = Inr True"
    and "map_of (savedAbis (snd (deleteAbi True name s))) = (map_of (savedAbis s))(name := None)"
    and "map fst (savedAbis (snd (deleteAbi True name s))) = removeAll name (map fst (savedAbis s))"
    and "saved_abis (snd (deleteAbi True name s)) = Some (savedAbis (snd (deleteAbi True name s)))"
  using assms
  by (simp_all add: deleteAbi_def get_property_def delete_property_def Let_def
      delete_conv' delete_keys)

text \<open>
  Claim C10 says that \<open>deleteAbi\<close> returns \<open>false\<close> for every name that is not saved.
  On a new manager nothing is saved, and \<open>deleteAbi("toString")\<close> returns \<open>true\<close>: the
  test \<open>if (this.savedAbis[name])\<close> finds the function \<open>Object.prototype.toString\<close>.
  The map is left as it was, and the document in local storage is written again.
\<close>

theorem deleteAbi_inherited_name:
  "''toString'' \<notin> fst ` set (savedAbis AbiManager_new)
   \<and> getSavedAbisList AbiManager_new = []
   \<and> deleteAbi True ''toString'' AbiManager_new
       = (Inr True, \<lparr>savedAbis = [], saved_abis = Some []\<rparr>)
   \<and> fst (deleteAbi True ''toString'' AbiManager_new) \<noteq> Inr False"
  by (simp add: AbiManager_new_def getSavedAbisList_def Object_keys_def deleteAbi_def
      get_property_def Object_prototype_keys_def delete_property_def)

section \<open>Properties of the static file server\<close>

subsection \<open>Extensions and content types\<close>

lemma extname_loop_inv:
  "n \<le> length path \<Longrightarrow> ext_inv path n st \<Longrightarrow> ext_inv path 0 (extname_loop path n st)"
proof (induction n arbitrary: st)
  case 0
  then show ?case by simp
next
  case (Suc i)
  show ?case
  proof (cases "path ! i = CHR ''/''")
    case True
    have "ext_inv path i st"
      using Suc.prems(2) by (auto simp: ext_inv_def)
    moreover have "ext_inv path 0 (st\<lparr>startPart := int i + 1\<rparr>)"
      using Suc.prems(2) by (auto simp: ext_inv_def)
    ultimately show ?thesis
      using True Suc.IH [of st] Suc.prems(1) by simp
  next
    case False
    define st1 where "st1 = (if endPos st = - 1
        then st\<lparr>endPos := int i + 1, matchedSlash := False\<rparr> else st)"
    define st2 where "st2 = (if path ! i = CHR ''.'' then
                      (if startDot st1 = - 1 then st1\<lparr>startDot := int i\<rparr>
                       else if preDotState st1 \<noteq> 1 then st1\<lparr>preDotState := 1\<rparr>
                       else st1)
                    else if startDot st1 \<noteq> - 1 then st1\<lparr>preDotState := - 1\<rparr>
                    else st1)"
    have e: "extname_loop path (Suc i) st = extname_loop path i st2"
      using False by (simp add: st1_def st2_def Let_def)
    have i1: "int i < endPos st1 \<and> endPos st1 \<le> int (length path)
        \<and> (startDot st1 = - 1
            \<or> (0 \<le> startDot st1 \<and> startDot st1 < endPos st1
                \<and> path ! nat (startDot st1) = CHR ''.''))"
      using Suc.prems by (auto simp: ext_inv_def st1_def)
    have "ext_inv path i st2"
      using i1 by (auto simp: ext_inv_def st2_def)
    then show ?thesis
      unfolding e using Suc.IH [of st2] Suc.prems(1) by simp
  qed
qed

lemma extname_dot: "extname path = [] \<or> hd (extname path) = CHR ''.''"
proof -
  define st where "st = extname_loop path (length path)
     \<lparr>startDot = - 1, startPart = 0, endPos = - 1, matchedSlash = True, preDotState = 0\<rparr>"
  have "ext_inv path 0 st"
    unfolding st_def by (rule extname_loop_inv) (simp_all add: ext_inv_def)
  then have d: "startDot st = - 1
          \<or> (0 \<le> startDot st \<and> startDot st < endPos st \<and> endPos st \<le> int (length path)
              \<and> path ! nat (startDot st) = CHR ''.'')"
    by (auto simp: ext_inv_def)
  show ?thesis
  proof (cases "startDot st = - 1")
    case True
    then show ?thesis by (simp add: extname_def st_def [symmetric] Let_def)
  next
    case False
    then have r: "0 \<le> startDot st" "startDot st < endPos st" "endPos st \<le> int (length path)"
      "path ! nat (startDot st) = CHR ''.''"
      using d by auto
    have le: "nat (endPos st) \<le> length path" "nat (startDot st) < nat (endPos st)"
      using r by linarith+
    have s: "slice path (startDot st) (endPos st)
          = take (nat (endPos st) - nat (startDot st)) (drop (nat (startDot st)) path)"
      using r le by (simp add: slice_def relative_index_def Let_def min_def)
    have "hd (slice path (startDot st) (endPos st)) = CHR ''.''"
      unfolding s using r le by (simp add: hd_drop_conv_nth)
    then show ?thesis
      by (simp add: extname_def st_def [symmetric] Let_def)
  qed
qed

text \<open>
  An extension is empty or starts with a dot, so it is never the name of a member of
  \<open>Object.prototype\<close>, and the lookup in the table yields an entry or \<open>undefined\<close>.
\<close>

lemma extname_not_inherited: "extname path \<notin> set Object_prototype_keys"
  using extname_dot [of path] by (auto simp: Object_prototype_keys_def)

subsection \<open>The extension of a file name\<close>

text \<open>
  The loop on a stretch of characters that are neither dots nor slashes, on the
  characters of a name before its last dot, and at the slash before the last segment.
  From these, the extension of a path whose last segment is \<open>name.ext\<close>, a name
  without a dot, or a name whose only dot is its first character.
\<close>

lemma extname_loop_plain:
  assumes "\<forall>i. m \<le> i \<and> i < m + k \<longrightarrow> path ! i \<noteq> CHR ''.'' \<and> path ! i \<noteq> CHR ''/''"
    and "startDot st = - 1" and "0 < k"
  shows "extname_loop path (m + k) st
     = extname_loop path m
         (if endPos st = - 1 then st\<lparr>endPos := int (m + k), matchedSlash := False\<rparr> else st)"
  using assms
proof (induction k arbitrary: st)
  case 0
  then show ?case by simp
next
  case (Suc k)
  define st1 where "st1 = (if endPos st = - 1
      then st\<lparr>endPos := int (m + k) + 1, matchedSlash := False\<rparr> else st)"
  have c: "path ! (m + k) \<noteq> CHR ''.''" "path ! (m + k) \<noteq> CHR ''/''"
    using Suc.prems(1) by auto
  have s1: "startDot st1 = - 1" "endPos st1 \<noteq> - 1"
    using Suc.prems(2) by (auto simp: st1_def)
  have step: "extname_loop path (m + Suc k) st = extname_loop path (m + k) st1"
    using c s1 by (simp add: st1_def Let_def)
  have t: "(if endPos st = - 1 then st\<lparr>endPos := int (m + Suc k), matchedSlash := False\<rparr>
            else st) = st1"
    by (simp add: st1_def add.commute)
  show ?case
  proof (cases "k = 0")
    case True
    then show ?thesis
      unfolding t step by simp
  next
    case False
    have "\<forall>i. m \<le> i \<and> i < m + k \<longrightarrow> path ! i \<noteq> CHR ''.'' \<and> path ! i \<noteq> CHR ''/''"
      using Suc.prems(1) by auto
    then have "extname_loop path (m + k) st1 = extname_loop path m st1"
      using Suc.IH [of st1] s1 False by simp
    then show ?thesis
      unfolding t step by simp
  qed
qed

lemma extname_loop_name:
  assumes "\<forall>i. m \<le> i \<and> i < m + k \<longrightarrow> path ! i \<noteq> CHR ''/''"
    and "startDot st \<noteq> - 1" and "endPos st \<noteq> - 1" and "0 < k"
  shows "extname_loop path (m + k) st
     = extname_loop path m (st\<lparr>preDotState := (if path ! m = CHR ''.'' then 1 else - 1)\<rparr>)"
  using assms
proof (induction k arbitrary: st)
  case 0
  then show ?case by simp
next
  case (Suc k)
  define st2 where "st2 = st\<lparr>preDotState := (if path ! (m + k) = CHR ''.'' then 1 else - 1)\<rparr>"
  have c: "path ! (m + k) \<noteq> CHR ''/''"
    using Suc.prems(1) by auto
  have same: "preDotState st = 1 \<Longrightarrow> st\<lparr>preDotState := 1\<rparr> = st"
    by (cases st) simp
  have step: "extname_loop path (m + Suc k) st = extname_loop path (m + k) st2"
    using c Suc.prems(2,3) by (simp add: st2_def Let_def same)
  have s2: "startDot st2 \<noteq> - 1" "endPos st2 \<noteq> - 1"
    using Suc.prems(2,3) by (simp_all add: st2_def)
  show ?case
  proof (cases "k = 0")
    case True
    then show ?thesis
      unfolding step by (simp add: st2_def)
  next
    case False
    have "\<forall>i. m \<le> i \<and> i < m + k \<longrightarrow> path ! i \<noteq> CHR ''/''"
      using Suc.prems(1) by auto
    then have "extname_loop path (m + k) st2
      = extname_loop path m (st2\<lparr>preDotState := (if path ! m = CHR ''.'' then 1 else - 1)\<rparr>)"
      using Suc.IH [of st2] s2 False by simp
    then show ?thesis
      unfolding step by (simp add: st2_def)
  qed
qed

lemma slice_to_end:
  "d \<le> length path \<Longrightarrow> slice path (int d) (int (length path)) = drop d path"
  by (simp add: slice_def relative_index_def Let_def)

lemma extname_loop_boundary:
  assumes "path = pre @ rest" and "pre = [] \<or> last pre = CHR ''/''"
    and "\<not> matchedSlash st"
  shows "startDot (extname_loop path (length pre) st) = startDot st
       \<and> endPos (extname_loop path (length pre) st) = endPos st
       \<and> preDotState (extname_loop path (length pre) st) = preDotState st"
proof (cases "pre = []")
  case True
  then show ?thesis by simp
next
  case False
  then obtain pre' where p: "pre = pre' @ [CHR ''/'']"
    using assms(2) by (metis append_butlast_last_id)
  have "path ! length pre' = CHR ''/''"
    by (simp add: assms(1) p nth_append)
  then show ?thesis
    using assms(3) by (simp add: p)
qed

lemma extname_ext:
  assumes "pre = [] \<or> last pre = CHR ''/''"
    and "name \<noteq> []" and "CHR ''/'' \<notin> set name"
    and "ext \<noteq> []" and "CHR ''/'' \<notin> set ext" and "CHR ''.'' \<notin> set ext"
  shows "extname (pre @ name @ ''.'' @ ext) = ''.'' @ ext"
proof -
  define path where "path = pre @ name @ ''.'' @ ext"
  define d where "d = length pre + length name"
  define init where "init = \<lparr>startDot = - 1, startPart = 0, endPos = - 1,
     matchedSlash = True, preDotState = 0\<rparr>"
  define sa where "sa = init\<lparr>endPos := int (length path), matchedSlash := False\<rparr>"
  define sb where "sb = sa\<lparr>startDot := int d\<rparr>"
  define sc where "sc = sb\<lparr>preDotState := (if path ! length pre = CHR ''.'' then 1 else - 1)\<rparr>"
  have len: "length path = Suc d + length ext"
    by (simp add: path_def d_def)
  have e: "\<forall>i. Suc d \<le> i \<and> i < Suc d + length ext
             \<longrightarrow> path ! i \<noteq> CHR ''.'' \<and> path ! i \<noteq> CHR ''/''"
  proof (intro allI impI)
    fix i
    assume a: "Suc d \<le> i \<and> i < Suc d + length ext"
    have "path = (pre @ name @ ''.'') @ ext" and "length (pre @ name @ ''.'') = Suc d"
      by (simp_all add: path_def d_def)
    then have "path ! i = ext ! (i - Suc d)"
      using a by (metis nth_append_right)
    moreover have "ext ! (i - Suc d) \<in> set ext"
      using a by (intro nth_mem) linarith
    ultimately show "path ! i \<noteq> CHR ''.'' \<and> path ! i \<noteq> CHR ''/''"
      using assms(5,6) by metis
  qed
  have n: "\<forall>i. length pre \<le> i \<and> i < length pre + length name \<longrightarrow> path ! i \<noteq> CHR ''/''"
  proof (intro allI impI)
    fix i
    assume a: "length pre \<le> i \<and> i < length pre + length name"
    have "path = pre @ (name @ ''.'' @ ext)"
      by (simp add: path_def)
    then have "path ! i = (name @ ''.'' @ ext) ! (i - length pre)"
      using a by (metis nth_append_right)
    moreover have lt: "i - length pre < length name"
      using a by linarith
    ultimately have "path ! i = name ! (i - length pre)"
      by (simp add: nth_append_left)
    moreover have "name ! (i - length pre) \<in> set name"
      using lt by (rule nth_mem)
    ultimately show "path ! i \<noteq> CHR ''/''"
      using assms(3) by metis
  qed
  have "path = (pre @ name) @ ''.'' @ ext" and "length (pre @ name) = d"
    by (simp_all add: path_def d_def)
  then have dot: "path ! d = CHR ''.''"
    by (metis append_Cons nth_append_length)
  have 1: "extname_loop path (length path) init = extname_loop path (Suc d) sa"
    unfolding len sa_def
    using extname_loop_plain [OF e, of init] assms(4) by (simp add: init_def len)
  have 2: "extname_loop path (Suc d) sa = extname_loop path d sb"
    using dot by (simp add: sa_def sb_def init_def Let_def)
  have 3: "extname_loop path d sb = extname_loop path (length pre) sc"
    unfolding d_def sc_def
    using extname_loop_name [OF n, of sb] assms(2) by (simp add: sb_def sa_def init_def)
  have ms: "\<not> matchedSlash sc"
    by (simp add: sc_def sb_def sa_def)
  define sf where "sf = extname_loop path (length path) init"
  have fin: "sf = extname_loop path (length pre) sc"
    unfolding sf_def by (simp only: 1 2 3)
  have pr: "path = pre @ (name @ ''.'' @ ext)"
    by (simp add: path_def)
  have b: "startDot sf = startDot sc \<and> endPos sf = endPos sc
      \<and> preDotState sf = preDotState sc"
    unfolding fin by (rule extname_loop_boundary [OF pr assms(1) ms])
  have c: "startDot sc = int d" "endPos sc = int (length path)" "preDotState sc \<noteq> 0"
    by (simp_all add: sc_def sb_def sa_def)
  have f: "startDot sf = int d" "endPos sf = int (length path)" "preDotState sf \<noteq> 0"
    using b c by simp_all
  have ne: "startDot sf \<noteq> endPos sf - 1"
    unfolding f using assms(4) by (simp add: len)
  have "extname path = (if startDot sf = - 1 \<or> endPos sf = - 1 \<or> preDotState sf = 0
            \<or> (preDotState sf = 1 \<and> startDot sf = endPos sf - 1
                \<and> startDot sf = startPart sf + 1)
         then [] else slice path (startDot sf) (endPos sf))"
    unfolding extname_def init_def [symmetric] sf_def [symmetric] Let_def ..
  then have "extname path = slice path (int d) (int (length path))"
    using ne f(3) by (simp add: f(1,2))
  also have "\<dots> = drop d path"
    by (rule slice_to_end) (simp add: len)
  also have "\<dots> = ''.'' @ ext"
    by (simp add: path_def d_def)
  finally show ?thesis
    by (simp add: path_def)
qed

lemma extname_plain:
  assumes "pre = [] \<or> last pre = CHR ''/''"
    and "name \<noteq> []" and "CHR ''/'' \<notin> set name" and "CHR ''.'' \<notin> set name"
  shows "extname (pre @ name) = []"
proof -
  define path where "path = pre @ name"
  define init where "init = \<lparr>startDot = - 1, startPart = 0, endPos = - 1,
     matchedSlash = True, preDotState = 0\<rparr>"
  define sa where "sa = init\<lparr>endPos := int (length path), matchedSlash := False\<rparr>"
  have n: "\<forall>i. length pre \<le> i \<and> i < length pre + length name
             \<longrightarrow> path ! i \<noteq> CHR ''.'' \<and> path ! i \<noteq> CHR ''/''"
  proof (intro allI impI)
    fix i
    assume a: "length pre \<le> i \<and> i < length pre + length name"
    then have lt: "i - length pre < length name"
      by linarith
    have "path ! i = name ! (i - length pre)"
      unfolding path_def using a by (metis nth_append_right)
    moreover have "name ! (i - length pre) \<in> set name"
      using lt by (rule nth_mem)
    ultimately show "path ! i \<noteq> CHR ''.'' \<and> path ! i \<noteq> CHR ''/''"
      using assms(3,4) by metis
  qed
  have 1: "extname_loop path (length path) init = extname_loop path (length pre) sa"
    unfolding sa_def
    using extname_loop_plain [OF n, of init] assms(2) by (simp add: init_def path_def)
  have ms: "\<not> matchedSlash sa"
    by (simp add: sa_def)
  have pr: "path = pre @ name"
    by (simp add: path_def)
  have "startDot (extname_loop path (length pre) sa) = startDot sa"
    using extname_loop_boundary [OF pr assms(1) ms] by simp
  then have "startDot (extname_loop path (length path) init) = - 1"
    unfolding 1 by (simp add: sa_def init_def)
  then have "extname path = []"
    unfolding extname_def init_def [symmetric] Let_def by simp
  then show ?thesis
    by (simp add: path_def)
qed

lemma extname_hidden:
  assumes "pre = [] \<or> last pre = CHR ''/''"
    and "CHR ''/'' \<notin> set ext" and "CHR ''.'' \<notin> set ext"
  shows "extname (pre @ ''.'' @ ext) = []"
proof -
  define path where "path = pre @ ''.'' @ ext"
  define d where "d = length pre"
  define init where "init = \<lparr>startDot = - 1, startPart = 0, endPos = - 1,
     matchedSlash = True, preDotState = 0\<rparr>"
  define sa where "sa = (if ext = [] then init
     else init\<lparr>endPos := int (length path), matchedSlash := False\<rparr>)"
  define sb where "sb = (if endPos sa = - 1
     then sa\<lparr>endPos := int d + 1, matchedSlash := False\<rparr> else sa)\<lparr>startDot := int d\<rparr>"
  have len: "length path = Suc d + length ext"
    by (simp add: path_def d_def)
  have e: "\<forall>i. Suc d \<le> i \<and> i < Suc d + length ext
             \<longrightarrow> path ! i \<noteq> CHR ''.'' \<and> path ! i \<noteq> CHR ''/''"
  proof (intro allI impI)
    fix i
    assume a: "Suc d \<le> i \<and> i < Suc d + length ext"
    have "path = (pre @ ''.'') @ ext" and "length (pre @ ''.'') = Suc d"
      by (simp_all add: path_def d_def)
    then have "path ! i = ext ! (i - Suc d)"
      using a by (metis nth_append_right)
    moreover have "ext ! (i - Suc d) \<in> set ext"
      using a by (intro nth_mem) linarith
    ultimately show "path ! i \<noteq> CHR ''.'' \<and> path ! i \<noteq> CHR ''/''"
      using assms(2,3) by metis
  qed
  have dot: "path ! d = CHR ''.''"
    by (simp add: path_def d_def)
  have 1: "extname_loop path (length path) init = extname_loop path (Suc d) sa"
  proof (cases "ext = []")
    case True
    then show ?thesis by (simp add: sa_def len)
  next
    case False
    then show ?thesis
      unfolding len sa_def
      using extname_loop_plain [OF e, of init] by (simp add: init_def len)
  qed
  have sd: "startDot sa = - 1"
    by (simp add: sa_def init_def)
  have 2: "extname_loop path (Suc d) sa = extname_loop path d sb"
    using dot sd by (simp add: sb_def Let_def)
  have ms: "\<not> matchedSlash sb"
    by (simp add: sb_def sa_def init_def)
  have pd: "preDotState sb = 0"
    by (simp add: sb_def sa_def init_def)
  have pr: "path = pre @ (''.'' @ ext)"
    by (simp add: path_def)
  have "preDotState (extname_loop path d sb) = 0"
    using extname_loop_boundary [OF pr assms(1) ms] by (simp add: d_def pd)
  then have "preDotState (extname_loop path (length path) init) = 0"
    by (simp only: 1 2)
  then have "extname path = []"
    unfolding extname_def init_def [symmetric] Let_def by simp
  then show ?thesis
    by (simp add: path_def)
qed

lemma extname_trailing_dot:
  assumes "pre = [] \<or> last pre = CHR ''/''"
    and "name \<noteq> []" and "CHR ''/'' \<notin> set name"
  shows "extname (pre @ name @ ''.'') = [] \<or> extname (pre @ name @ ''.'') = ''.''"
proof -
  define path where "path = pre @ name @ ''.''"
  define d where "d = length pre + length name"
  define init where "init = \<lparr>startDot = - 1, startPart = 0, endPos = - 1,
     matchedSlash = True, preDotState = 0\<rparr>"
  define sb where "sb = init\<lparr>endPos := int d + 1, matchedSlash := False, startDot := int d\<rparr>"
  define sc where "sc = sb\<lparr>preDotState := (if path ! length pre = CHR ''.'' then 1 else - 1)\<rparr>"
  have len: "length path = Suc d"
    by (simp add: path_def d_def)
  have n: "\<forall>i. length pre \<le> i \<and> i < length pre + length name \<longrightarrow> path ! i \<noteq> CHR ''/''"
  proof (intro allI impI)
    fix i
    assume a: "length pre \<le> i \<and> i < length pre + length name"
    have "path = pre @ (name @ ''.'')"
      by (simp add: path_def)
    then have "path ! i = (name @ ''.'') ! (i - length pre)"
      using a by (metis nth_append_right)
    moreover have lt: "i - length pre < length name"
      using a by linarith
    ultimately have "path ! i = name ! (i - length pre)"
      by (simp add: nth_append_left)
    moreover have "name ! (i - length pre) \<in> set name"
      using lt by (rule nth_mem)
    ultimately show "path ! i \<noteq> CHR ''/''"
      using assms(3) by metis
  qed
  have "path = (pre @ name) @ ''.''" and "length (pre @ name) = d"
    by (simp_all add: path_def d_def)
  then have dot: "path ! d = CHR ''.''"
    by (metis nth_append_length)
  have 1: "extname_loop path (length path) init = extname_loop path d sb"
    unfolding len using dot by (simp add: sb_def init_def Let_def)
  have 2: "extname_loop path d sb = extname_loop path (length pre) sc"
    unfolding d_def sc_def
    using extname_loop_name [OF n, of sb] assms(2) by (simp add: sb_def init_def)
  have ms: "\<not> matchedSlash sc"
    by (simp add: sc_def sb_def)
  define sf where "sf = extname_loop path (length path) init"
  have fin: "sf = extname_loop path (length pre) sc"
    unfolding sf_def by (simp only: 1 2)
  have pr: "path = pre @ (name @ ''.'')"
    by (simp add: path_def)
  have b: "startDot sf = startDot sc \<and> endPos sf = endPos sc
      \<and> preDotState sf = preDotState sc"
    unfolding fin by (rule extname_loop_boundary [OF pr assms(1) ms])
  have c: "startDot sc = int d" "endPos sc = int (length path)"
    by (simp_all add: sc_def sb_def len)
  have f: "startDot sf = int d" "endPos sf = int (length path)"
    using b c by simp_all
  have "extname path = (if startDot sf = - 1 \<or> endPos sf = - 1 \<or> preDotState sf = 0
            \<or> (preDotState sf = 1 \<and> startDot sf = endPos sf - 1
                \<and> startDot sf = startPart sf + 1)
         then [] else slice path (startDot sf) (endPos sf))"
    unfolding extname_def init_def [symmetric] sf_def [symmetric] Let_def ..
  then have "extname path = [] \<or> extname path = slice path (int d) (int (length path))"
    by (simp add: f)
  moreover have "slice path (int d) (int (length path)) = drop d path"
    by (rule slice_to_end) (simp add: len)
  moreover have "drop d path = ''.''"
    by (simp add: path_def d_def)
  ultimately show ?thesis
    by (simp add: path_def)
qed

text \<open>
  A last segment has no dot, or it is \<open>name.ext\<close> where \<open>ext\<close> has no dot; the
  lemmas above cover the four cases: no dot, \<open>name\<close> empty, \<open>ext\<close> empty, neither.
\<close>

lemma last_segment_cases:
  "CHR ''.'' \<notin> set seg
   \<or> (\<exists>name ext. seg = name @ ''.'' @ ext \<and> CHR ''.'' \<notin> set ext)"
proof (cases "CHR ''.'' \<in> set seg")
  case True
  then obtain name ext where "seg = name @ CHR ''.'' # ext" and "CHR ''.'' \<notin> set ext"
    by (meson split_list_last)
  then show ?thesis by auto
next
  case False
  then show ?thesis by simp
qed

subsection \<open>The content type\<close>

text \<open>
  The content type of a path is the entry of its extension in the table, or
  \<open>text/plain\<close> when the table has no such entry.
\<close>

lemma contentType_table:
  "contentType path
     = Value (case map_of MIME_TYPES (extname path) of
                Some t \<Rightarrow> t | None \<Rightarrow> ''text/plain'')"
proof (cases "map_of MIME_TYPES (extname path)")
  case None
  then show ?thesis
    using extname_not_inherited [of path] by (simp add: contentType_def get_property_def)
next
  case (Some t)
  then have "(extname path, t) \<in> set MIME_TYPES"
    by (rule map_of_SomeD)
  then have "t \<noteq> []"
    by (auto simp: MIME_TYPES_def)
  then show ?thesis
    using Some by (simp add: contentType_def get_property_def)
qed

lemma filePath_file:
  "name \<noteq> [] \<Longrightarrow> filePath (dir @ ''/'' @ name) = (''.'' @ dir @ ''/'') @ name"
  by (cases dir) (simp_all add: filePath_def)

subsection \<open>Responses\<close>

text \<open>
  Claim C8 as amended. The resolved file is \<open>filePath url\<close>. For every file system and
  every request there are three cases, by what reading the resolved file yields.

  When it yields the content, the response is status 200 with the content and with the
  Content-Type that the extension of the path resolves to: the entry of the extension in
  the table, or \<open>text/plain\<close>. In particular, for a request \<open>dir/name.ext\<close>, where
  \<open>name\<close> is not empty and \<open>ext\<close> is not empty and has no dot, the type is the entry
  of \<open>.ext\<close> in the table, or \<open>text/plain\<close> when there is none; for a request
  \<open>dir/name\<close> where \<open>name\<close> has no dot, for a request \<open>dir/.name\<close> where
  \<open>name\<close> has no dot, and for a request \<open>dir/name.\<close>, it is \<open>text/plain\<close>; and
  the request \<open>/\<close> is answered with the root document as \<open>text/html\<close>.

  When the file is missing (the error code is \<open>ENOENT\<close>) the root document is read: if
  that succeeds, the response is status 200 with the root document as \<open>text/html\<close>; if
  it fails, the response is status 500 with the plain text \<open>Error loading index.html\<close>
  and no header.

  When reading fails with another code, as it does for a directory or for a file that
  may not be read, the response is status 500 with the plain text \<open>Server Error: \<close>
  followed by the code, and no header.

  So the status is 200 or 500, and it is 500 exactly when reading the resolved file
  fails and either the code is not \<open>ENOENT\<close> or the root document cannot be read.
\<close>

theorem handler_response:
  "(fs (filePath url) = Content c \<longrightarrow>
        handler fs url
          = \<lparr>status = 200,
             headers = [(''Content-Type'',
               Value (case map_of MIME_TYPES (extname (filePath url)) of
                        Some t \<Rightarrow> t | None \<Rightarrow> ''text/plain''))],
             body = c\<rparr>
      \<and> (url = dir @ ''/'' @ name @ ''.'' @ ext
           \<and> name \<noteq> [] \<and> CHR ''/'' \<notin> set name
           \<and> ext \<noteq> [] \<and> CHR ''/'' \<notin> set ext \<and> CHR ''.'' \<notin> set ext \<longrightarrow>
         handler fs url
           = \<lparr>status = 200,
              headers = [(''Content-Type'',
                Value (case map_of MIME_TYPES (''.'' @ ext) of
                         Some t \<Rightarrow> t | None \<Rightarrow> ''text/plain''))],
              body = c\<rparr>)
      \<and> (url = dir @ ''/'' @ name
           \<and> name \<noteq> [] \<and> CHR ''/'' \<notin> set name \<and> CHR ''.'' \<notin> set name \<longrightarrow>
         handler fs url
           = \<lparr>status = 200, headers = [(''Content-Type'', Value ''text/plain'')],
              body = c\<rparr>)
      \<and> (url = dir @ ''/.'' @ name
           \<and> CHR ''/'' \<notin> set name \<and> CHR ''.'' \<notin> set name \<longrightarrow>
         handler fs url
           = \<lparr>status = 200, headers = [(''Content-Type'', Value ''text/plain'')],
              body = c\<rparr>)
      \<and> (url = dir @ ''/'' @ name @ ''.''
           \<and> name \<noteq> [] \<and> CHR ''/'' \<notin> set name \<longrightarrow>
         handler fs url
           = \<lparr>status = 200, headers = [(''Content-Type'', Value ''text/plain'')],
              body = c\<rparr>)
      \<and> (url = ''/'' \<longrightarrow>
         fs ''./index.html'' = Content c
         \<and> handler fs url
           = \<lparr>status = 200, headers = [(''Content-Type'', Value ''text/html'')],
              body = c\<rparr>))
 \<and> (fs (filePath url) = ReadError ''ENOENT'' \<longrightarrow>
        (\<forall>c. fs ''./index.html'' = Content c \<longrightarrow>
             handler fs url
               = \<lparr>status = 200, headers = [(''Content-Type'', Value ''text/html'')],
                  body = c\<rparr>)
      \<and> (\<forall>e. fs ''./index.html'' = ReadError e \<longrightarrow>
             handler fs url
               = \<lparr>status = 500, headers = [], body = ''Error loading index.html''\<rparr>)
      \<and> (status (handler fs url) = 500 \<longleftrightarrow> (\<exists>e. fs ''./index.html'' = ReadError e))
      \<and> (status (handler fs url) = 200 \<longleftrightarrow> (\<exists>c. fs ''./index.html'' = Content c)))
 \<and> (fs (filePath url) = ReadError code \<and> code \<noteq> ''ENOENT'' \<longrightarrow>
        handler fs url
          = \<lparr>status = 500, headers = [], body = ''Server Error: '' @ code\<rparr>)
 \<and> (status (handler fs url) = 200 \<or> status (handler fs url) = 500)
 \<and> (status (handler fs url) = 500 \<longleftrightarrow>
        (\<exists>e. fs (filePath url) = ReadError e
           \<and> (e = ''ENOENT'' \<longrightarrow> (\<exists>r. fs ''./index.html'' = ReadError r))))"
proof -
  have found: "handler fs url
          = \<lparr>status = 200,
             headers = [(''Content-Type'',
               Value (case map_of MIME_TYPES (extname (filePath url)) of
                        Some t \<Rightarrow> t | None \<Rightarrow> ''text/plain''))],
             body = c\<rparr>"
    if "fs (filePath url) = Content c"
    using that by (simp add: handler_def contentType_table)
  have named: "extname (filePath url) = ''.'' @ ext"
    if "url = dir @ ''/'' @ name @ ''.'' @ ext" "name \<noteq> []" "CHR ''/'' \<notin> set name"
      "ext \<noteq> []" "CHR ''/'' \<notin> set ext" "CHR ''.'' \<notin> set ext"
  proof -
    have "filePath url = (''.'' @ dir @ ''/'') @ name @ ''.'' @ ext"
      unfolding that(1) using filePath_file [of "name @ ''.'' @ ext" dir] that(2) by simp
    moreover have "extname ((''.'' @ dir @ ''/'') @ name @ ''.'' @ ext) = ''.'' @ ext"
      by (rule extname_ext) (use that in simp_all)
    ultimately show ?thesis by simp
  qed
  have plain: "extname (filePath url) = []"
    if "url = dir @ ''/'' @ name" "name \<noteq> []" "CHR ''/'' \<notin> set name"
      "CHR ''.'' \<notin> set name"
  proof -
    have "filePath url = (''.'' @ dir @ ''/'') @ name"
      unfolding that(1) using filePath_file [of name dir] that(2) by simp
    moreover have "extname ((''.'' @ dir @ ''/'') @ name) = []"
      by (rule extname_plain) (use that in simp_all)
    ultimately show ?thesis by simp
  qed
  have hidden: "extname (filePath url) = []"
    if "url = dir @ ''/.'' @ name" "CHR ''/'' \<notin> set name" "CHR ''.'' \<notin> set name"
  proof -
    have "filePath url = (''.'' @ dir @ ''/'') @ ''.'' @ name"
      unfolding that(1) using filePath_file [of "''.'' @ name" dir] by simp
    moreover have "extname ((''.'' @ dir @ ''/'') @ ''.'' @ name) = []"
      by (rule extname_hidden) (use that in simp_all)
    ultimately show ?thesis by simp
  qed
  have dotted: "extname (filePath url) = [] \<or> extname (filePath url) = ''.''"
    if "url = dir @ ''/'' @ name @ ''.''" "name \<noteq> []" "CHR ''/'' \<notin> set name"
  proof -
    have "filePath url = (''.'' @ dir @ ''/'') @ name @ ''.''"
      unfolding that(1) using filePath_file [of "name @ ''.''" dir] by simp
    moreover have "extname ((''.'' @ dir @ ''/'') @ name @ ''.'') = []
        \<or> extname ((''.'' @ dir @ ''/'') @ name @ ''.'') = ''.''"
      by (rule extname_trailing_dot) (use that in simp_all)
    ultimately show ?thesis by simp
  qed
  have root: "filePath ''/'' = ''./index.html''"
    by (simp add: filePath_def)
  have index: "extname ''./index.html'' = ''.html''"
    by code_simp
  have no_plain: "map_of MIME_TYPES [] = None" "map_of MIME_TYPES ''.'' = None"
    by (simp_all add: MIME_TYPES_def)
  have html: "map_of MIME_TYPES ''.html'' = Some ''text/html''"
    by (simp add: MIME_TYPES_def)
  have p1: "fs (filePath url) = Content c \<longrightarrow>
        handler fs url
          = \<lparr>status = 200,
             headers = [(''Content-Type'',
               Value (case map_of MIME_TYPES (extname (filePath url)) of
                        Some t \<Rightarrow> t | None \<Rightarrow> ''text/plain''))],
             body = c\<rparr>
      \<and> (url = dir @ ''/'' @ name @ ''.'' @ ext
           \<and> name \<noteq> [] \<and> CHR ''/'' \<notin> set name
           \<and> ext \<noteq> [] \<and> CHR ''/'' \<notin> set ext \<and> CHR ''.'' \<notin> set ext \<longrightarrow>
         handler fs url
           = \<lparr>status = 200,
              headers = [(''Content-Type'',
                Value (case map_of MIME_TYPES (''.'' @ ext) of
                         Some t \<Rightarrow> t | None \<Rightarrow> ''text/plain''))],
              body = c\<rparr>)
      \<and> (url = dir @ ''/'' @ name
           \<and> name \<noteq> [] \<and> CHR ''/'' \<notin> set name \<and> CHR ''.'' \<notin> set name \<longrightarrow>
         handler fs url
           = \<lparr>status = 200, headers = [(''Content-Type'', Value ''text/plain'')],
              body = c\<rparr>)
      \<and> (url = dir @ ''/.'' @ name
           \<and> CHR ''/'' \<notin> set name \<and> CHR ''.'' \<notin> set name \<longrightarrow>
         handler fs url
           = \<lparr>status = 200, headers = [(''Content-Type'', Value ''text/plain'')],
              body = c\<rparr>)
      \<and> (url = dir @ ''/'' @ name @ ''.''
           \<and> name \<noteq> [] \<and> CHR ''/'' \<notin> set name \<longrightarrow>
         handler fs url
           = \<lparr>status = 200, headers = [(''Content-Type'', Value ''text/plain'')],
              body = c\<rparr>)
      \<and> (url = ''/'' \<longrightarrow>
         fs ''./index.html'' = Content c
         \<and> handler fs url
           = \<lparr>status = 200, headers = [(''Content-Type'', Value ''text/html'')],
              body = c\<rparr>)"
  proof (intro impI conjI)
    assume r: "fs (filePath url) = Content c"
    show "handler fs url
          = \<lparr>status = 200,
             headers = [(''Content-Type'',
               Value (case map_of MIME_TYPES (extname (filePath url)) of
                        Some t \<Rightarrow> t | None \<Rightarrow> ''text/plain''))],
             body = c\<rparr>"
      by (rule found [OF r])
    show "handler fs url
           = \<lparr>status = 200,
              headers = [(''Content-Type'',
                Value (case map_of MIME_TYPES (''.'' @ ext) of
                         Some t \<Rightarrow> t | None \<Rightarrow> ''text/plain''))],
              body = c\<rparr>"
      if "url = dir @ ''/'' @ name @ ''.'' @ ext
           \<and> name \<noteq> [] \<and> CHR ''/'' \<notin> set name
           \<and> ext \<noteq> [] \<and> CHR ''/'' \<notin> set ext \<and> CHR ''.'' \<notin> set ext"
      using found [OF r] named that by simp
    show "handler fs url
           = \<lparr>status = 200, headers = [(''Content-Type'', Value ''text/plain'')],
              body = c\<rparr>"
      if "url = dir @ ''/'' @ name
           \<and> name \<noteq> [] \<and> CHR ''/'' \<notin> set name \<and> CHR ''.'' \<notin> set name"
      using found [OF r] plain that by (simp add: no_plain)
    show "handler fs url
           = \<lparr>status = 200, headers = [(''Content-Type'', Value ''text/plain'')],
              body = c\<rparr>"
      if "url = dir @ ''/.'' @ name
           \<and> CHR ''/'' \<notin> set name \<and> CHR ''.'' \<notin> set name"
      using found [OF r] hidden that by (simp add: no_plain)
    show "handler fs url
           = \<lparr>status = 200, headers = [(''Content-Type'', Value ''text/plain'')],
              body = c\<rparr>"
      if "url = dir @ ''/'' @ name @ ''.''
           \<and> name \<noteq> [] \<and> CHR ''/'' \<notin> set name"
      using found [OF r] dotted that by (auto simp: no_plain)
    show "fs ''./index.html'' = Content c" if "url = ''/''"
      using r that by (simp add: root)
    show "handler fs url
           = \<lparr>status = 200, headers = [(''Content-Type'', Value ''text/html'')],
              body = c\<rparr>"
      if "url = ''/''"
      using found [OF r] that by (simp add: root index html)
  qed
  have p2: "fs (filePath url) = ReadError ''ENOENT'' \<longrightarrow>
        (\<forall>c. fs ''./index.html'' = Content c \<longrightarrow>
             handler fs url
               = \<lparr>status = 200, headers = [(''Content-Type'', Value ''text/html'')],
                  body = c\<rparr>)
      \<and> (\<forall>e. fs ''./index.html'' = ReadError e \<longrightarrow>
             handler fs url
               = \<lparr>status = 500, headers = [], body = ''Error loading index.html''\<rparr>)
      \<and> (status (handler fs url) = 500 \<longleftrightarrow> (\<exists>e. fs ''./index.html'' = ReadError e))
      \<and> (status (handler fs url) = 200 \<longleftrightarrow> (\<exists>c. fs ''./index.html'' = Content c))"
    by (cases "fs ''./index.html''") (simp_all add: handler_def)
  have p3: "fs (filePath url) = ReadError code \<and> code \<noteq> ''ENOENT'' \<longrightarrow>
        handler fs url
          = \<lparr>status = 500, headers = [], body = ''Server Error: '' @ code\<rparr>"
    by (simp add: handler_def)
  have p4: "status (handler fs url) = 200 \<or> status (handler fs url) = 500"
    by (cases "fs (filePath url)"; cases "fs ''./index.html''") (simp_all add: handler_def)
  have p5: "status (handler fs url) = 500 \<longleftrightarrow>
        (\<exists>e. fs (filePath url) = ReadError e
           \<and> (e = ''ENOENT'' \<longrightarrow> (\<exists>r. fs ''./index.html'' = ReadError r)))"
    by (cases "fs (filePath url)"; cases "fs ''./index.html''") (simp_all add: handler_def)
  show ?thesis
    using p1 p2 p3 p4 p5 by (intro conjI)
qed

text \<open>
  In a directory, a request is answered with status 200 exactly when the resolved path
  is a regular file that can be read, or is absent while the root document is such a
  file.
\<close>

lemma handler_status_200:
  "status (handler (readFile disk) url) = 200 \<longleftrightarrow>
     (\<exists>c. disk (filePath url) = Regular c)
     \<or> (disk (filePath url) = Absent \<and> (\<exists>c. disk ''./index.html'' = Regular c))"
  by (cases "disk (filePath url)"; cases "disk ''./index.html''")
    (simp_all add: handler_def readFile_def)

text \<open>
  Claim C8 says that a request whose resolved file exists is answered with status 200,
  and that status 500 is returned only when the root document cannot be read. In the
  directory \<open>site\<close> the path \<open>./css\<close> exists: it is a directory. Reading it fails with
  \<open>EISDIR\<close>, and the request \<open>/css\<close> is answered with status 500, although the root
  document can be read.
\<close>

theorem handler_existing_directory:
  "filePath ''/css'' = ''./css''
   \<and> site ''./css'' = Directory
   \<and> site ''./css'' \<noteq> Absent
   \<and> readFile site ''./index.html'' = Content ''<html></html>''
   \<and> handler (readFile site) ''/css''
       = \<lparr>status = 500, headers = [], body = ''Server Error: EISDIR''\<rparr>"
  by (simp add: filePath_def site_def readFile_def handler_def)

text \<open>
  In the directory \<open>site\<close>: a style sheet, a script with several dots in its name, a
  file of an extension that the table does not list, a file without extension, a file
  whose name starts with its only dot, a file whose name ends with a dot, the root
  request, a route that names no file, and a file that may not be read; and a route in
  the empty directory.
\<close>

theorem handler_response_witness:
  "handler (readFile site) ''/css/styles.css''
     = \<lparr>status = 200, headers = [(''Content-Type'', Value ''text/css'')], body = ''body {}''\<rparr>
   \<and> handler (readFile site) ''/js/ethers.umd.min.js''
     = \<lparr>status = 200, headers = [(''Content-Type'', Value ''application/javascript'')],
        body = ''var ethers;''\<rparr>
   \<and> handler (readFile site) ''/notes.md''
     = \<lparr>status = 200, headers = [(''Content-Type'', Value ''text/plain'')],
        body = ''# Notes''\<rparr>
   \<and> handler (readFile site) ''/LICENSE''
     = \<lparr>status = 200, headers = [(''Content-Type'', Value ''text/plain'')], body = ''MIT''\<rparr>
   \<and> handler (readFile site) ''/.gitignore''
     = \<lparr>status = 200, headers = [(''Content-Type'', Value ''text/plain'')],
        body = ''node_modules''\<rparr>
   \<and> handler (readFile site) ''/draft.''
     = \<lparr>status = 200, headers = [(''Content-Type'', Value ''text/plain'')],
        body = ''todo''\<rparr>
   \<and> handler (readFile site) ''/''
     = \<lparr>status = 200, headers = [(''Content-Type'', Value ''text/html'')],
        body = ''<html></html>''\<rparr>
   \<and> readFile site (filePath ''/wallet'') = ReadError ''ENOENT''
   \<and> handler (readFile site) ''/wallet''
       = \<lparr>status = 200, headers = [(''Content-Type'', Value ''text/html'')],
          body = ''<html></html>''\<rparr>
   \<and> readFile empty_site (filePath ''/wallet'') = ReadError ''ENOENT''
   \<and> handler (readFile empty_site) ''/wallet''
       = \<lparr>status = 500, headers = [], body = ''Error loading index.html''\<rparr>
   \<and> readFile site (filePath ''/server.key'') = ReadError ''EACCES''
   \<and> handler (readFile site) ''/server.key''
       = \<lparr>status = 500, headers = [], body = ''Server Error: EACCES''\<rparr>"
proof -
  have r: "readFile site (filePath ''/css/styles.css'') = Content ''body {}''"
    "readFile site (filePath ''/js/ethers.umd.min.js'') = Content ''var ethers;''"
    "readFile site (filePath ''/notes.md'') = Content ''# Notes''"
    "readFile site (filePath ''/LICENSE'') = Content ''MIT''"
    "readFile site (filePath ''/'') = Content ''<html></html>''"
    "readFile site (filePath ''/wallet'') = ReadError ''ENOENT''"
    "readFile site ''./index.html'' = Content ''<html></html>''"
    "readFile site (filePath ''/server.key'') = ReadError ''EACCES''"
    "readFile site (filePath ''/.gitignore'') = Content ''node_modules''"
    "readFile site (filePath ''/draft.'') = Content ''todo''"
    by (simp_all add: readFile_def site_def filePath_def)
  have e: "readFile empty_site (filePath ''/wallet'') = ReadError ''ENOENT''"
    "readFile empty_site ''./index.html'' = ReadError ''ENOENT''"
    by (simp_all add: readFile_def empty_site_def)
  have m: "map_of MIME_TYPES ''.css'' = Some ''text/css''"
    "map_of MIME_TYPES ''.js'' = Some ''application/javascript''"
    "map_of MIME_TYPES ''.md'' = None"
    by (simp_all add: MIME_TYPES_def)
  have 1: "handler (readFile site) ''/css/styles.css''
     = \<lparr>status = 200, headers = [(''Content-Type'', Value ''text/css'')], body = ''body {}''\<rparr>"
    using handler_response [where fs = "readFile site" and url = "''/css/styles.css''"
        and c = "''body {}''" and dir = "''/css''" and name = "''styles''" and ext = "''css''",
        THEN conjunct1, THEN mp, OF r(1), THEN conjunct2, THEN conjunct1]
      m by simp
  have 2: "handler (readFile site) ''/js/ethers.umd.min.js''
     = \<lparr>status = 200, headers = [(''Content-Type'', Value ''application/javascript'')],
        body = ''var ethers;''\<rparr>"
    using handler_response [where fs = "readFile site" and url = "''/js/ethers.umd.min.js''"
        and c = "''var ethers;''" and dir = "''/js''" and name = "''ethers.umd.min''"
        and ext = "''js''",
        THEN conjunct1, THEN mp, OF r(2), THEN conjunct2, THEN conjunct1]
      m by simp
  have 3: "handler (readFile site) ''/notes.md''
     = \<lparr>status = 200, headers = [(''Content-Type'', Value ''text/plain'')],
        body = ''# Notes''\<rparr>"
    using handler_response [where fs = "readFile site" and url = "''/notes.md''"
        and c = "''# Notes''" and dir = "[]" and name = "''notes''" and ext = "''md''",
        THEN conjunct1, THEN mp, OF r(3), THEN conjunct2, THEN conjunct1]
      m by simp
  have 4: "handler (readFile site) ''/LICENSE''
     = \<lparr>status = 200, headers = [(''Content-Type'', Value ''text/plain'')], body = ''MIT''\<rparr>"
    using handler_response [where fs = "readFile site" and url = "''/LICENSE''"
        and c = "''MIT''" and dir = "[]" and name = "''LICENSE''",
        THEN conjunct1, THEN mp, OF r(4), THEN conjunct2, THEN conjunct2, THEN conjunct1]
    by simp
  have 5: "handler (readFile site) ''/''
     = \<lparr>status = 200, headers = [(''Content-Type'', Value ''text/html'')],
        body = ''<html></html>''\<rparr>"
    using handler_response [where fs = "readFile site" and url = "''/''"
        and c = "''<html></html>''",
        THEN conjunct1, THEN mp, OF r(5), THEN conjunct2, THEN conjunct2, THEN conjunct2,
        THEN conjunct2, THEN conjunct2]
    by simp
  have 6: "handler (readFile site) ''/wallet''
       = \<lparr>status = 200, headers = [(''Content-Type'', Value ''text/html'')],
          body = ''<html></html>''\<rparr>"
    using handler_response [where fs = "readFile site" and url = "''/wallet''",
        THEN conjunct2, THEN conjunct1, THEN mp, OF r(6), THEN conjunct1] r(7)
    by simp
  have 7: "handler (readFile empty_site) ''/wallet''
       = \<lparr>status = 500, headers = [], body = ''Error loading index.html''\<rparr>"
    using handler_response [where fs = "readFile empty_site" and url = "''/wallet''",
        THEN conjunct2, THEN conjunct1, THEN mp, OF e(1), THEN conjunct2, THEN conjunct1] e(2)
    by simp
  have 8: "handler (readFile site) ''/server.key''
       = \<lparr>status = 500, headers = [], body = ''Server Error: EACCES''\<rparr>"
    using handler_response [where fs = "readFile site" and url = "''/server.key''"
        and code = "''EACCES''",
        THEN conjunct2, THEN conjunct2, THEN conjunct1] r(8)
    by simp
  have 9: "handler (readFile site) ''/.gitignore''
     = \<lparr>status = 200, headers = [(''Content-Type'', Value ''text/plain'')],
        body = ''node_modules''\<rparr>"
    using handler_response [where fs = "readFile site" and url = "''/.gitignore''"
        and c = "''node_modules''" and dir = "[]" and name = "''gitignore''",
        THEN conjunct1, THEN mp, OF r(9), THEN conjunct2, THEN conjunct2, THEN conjunct2,
        THEN conjunct1]
    by simp
  have 10: "handler (readFile site) ''/draft.''
     = \<lparr>status = 200, headers = [(''Content-Type'', Value ''text/plain'')],
        body = ''todo''\<rparr>"
    using handler_response [where fs = "readFile site" and url = "''/draft.''"
        and c = "''todo''" and dir = "[]" and name = "''draft''",
        THEN conjunct1, THEN mp, OF r(10), THEN conjunct2, THEN conjunct2, THEN conjunct2,
        THEN conjunct2, THEN conjunct1]
    by simp
  show ?thesis
    using 1 2 3 4 5 6 7 8 9 10 r(6,8) e(1) by simp
qed

section \<open>Properties of ContractInteractor\<close>

subsection \<open>The two contract instances\<close>

text \<open>
  A new interactor has neither instance, and \<open>_initializeContract\<close>, the only writer of
  the two fields, sets the signer-backed instance only after the read-only one. So every
  interactor that the constructor and the setters produce satisfies \<open>bindings_ok\<close>.
\<close>

lemma bindings_ok_new: "bindings_ok ContractInteractor_new"
  by (simp add: bindings_ok_def ContractInteractor_new_def)

lemma bindings_ok_initializeContract:
  "bindings_ok s \<Longrightarrow> bindings_ok (snd (initializeContract lib env s))"
  by (auto simp: bindings_ok_def initializeContract_def Let_def split: option.splits)

lemma bindings_ok_setContractAddress:
  "bindings_ok s \<Longrightarrow> bindings_ok (snd (setContractAddress lib env a s))"
proof -
  assume "bindings_ok s"
  then have "bindings_ok (s\<lparr>contractAddress := Some a\<rparr>)"
    by (simp add: bindings_ok_def)
  then show ?thesis
    using \<open>bindings_ok s\<close>
    by (simp add: setContractAddress_def bindings_ok_initializeContract)
qed

lemma bindings_ok_setAbi:
  "bindings_ok s \<Longrightarrow> bindings_ok (snd (setAbi lib env items s))"
proof -
  assume "bindings_ok s"
  then have "bindings_ok (s\<lparr>abi := Some items\<rparr>)"
    by (simp add: bindings_ok_def)
  then show ?thesis
    by (simp add: setAbi_def bindings_ok_initializeContract)
qed


subsection \<open>The example contracts\<close>

lemma ethers_fields:
  "isAddress ethers = lowercase_address" "accepts ethers = accepts_abi"
  "exposes ethers = exposes_name" "parseEther ethers = parseFixed18"
  by (simp_all add: ethers_def)

lemma token_address_ok: "lowercase_address token_address"
  by (simp add: lowercase_address_def token_address_def is_lower_hex_def)

lemma accepts_examples:
  "accepts_abi token_abi" "accepts_abi total_abi" "\<not> accepts_abi flagged_abi"
  by (simp_all add: accepts_abi_def verifyState_def token_abi_def total_abi_def
      flagged_abi_def)


lemma token_reader_eq:
  "token_reader = \<lparr>contractAddress = Some token_address, abi = Some token_abi,
      contract = Some \<lparr>bound_address = token_address, bound_abi = token_abi,
                        bound_signer = False\<rparr>,
      contractWithSigner = None\<rparr>"
  using token_address_ok accepts_examples(1)
  by (auto simp: token_reader_def setContractAddress_def setAbi_def initializeContract_def
      ContractInteractor_new_def read_only_wallet_def ethers_fields Let_def
      lowercase_address_def)






lemma stale_reader_setAbi:
  "fst (setAbi ethers read_only_wallet flagged_abi
          (snd (setAbi ethers read_only_wallet total_abi
             (snd (setContractAddress ethers read_only_wallet token_address
                ContractInteractor_new))))) = Inr True"
  by (simp add: setAbi_def)

lemma stale_bindings_ok: "bindings_ok stale_reader"
  unfolding stale_reader_def
  by (intro bindings_ok_setAbi bindings_ok_setContractAddress bindings_ok_new)

subsection \<open>Dispatch\<close>




subsection \<open>The callable functions\<close>

text \<open>
  Claim C4. For an ABI array with \<open>N\<close> entries of type \<open>function\<close> and \<open>M\<close> other entries
  (\<open>N + M\<close> being its length), \<open>getAvailableFunctions\<close> returns \<open>N\<close> descriptors. The
  \<open>k\<close>-th descriptor is made from the \<open>k\<close>-th function entry: it has that entry's name,
  its mutability as \<open>type\<close>, its inputs, its outputs, its \<open>constant\<close> field, and the
  payable flag, which is true when the entry has \<open>payable: true\<close> or the mutability
  \<open>payable\<close>. The names of the descriptors are the names of the function entries in
  their order in the ABI.
\<close>

theorem getAvailableFunctions_functions:
  assumes "abi s = Some items"
  shows "length (getAvailableFunctions s)
           = length (filter (\<lambda>item. item_type item = Some ''function'') items)
       \<and> length (filter (\<lambda>item. item_type item = Some ''function'') items)
           + length (filter (\<lambda>item. item_type item \<noteq> Some ''function'') items)
           = length items
       \<and> map fn_name (getAvailableFunctions s)
           = map item_name (filter (\<lambda>item. item_type item = Some ''function'') items)
       \<and> subseq (map fn_name (getAvailableFunctions s)) (map item_name items)
       \<and> (\<forall>k < length (getAvailableFunctions s).
             fn_name (getAvailableFunctions s ! k)
               = item_name (filter (\<lambda>item. item_type item = Some ''function'') items ! k)
           \<and> fn_type (getAvailableFunctions s ! k)
               = stateMutability (filter (\<lambda>item. item_type item = Some ''function'') items ! k)
           \<and> fn_inputs (getAvailableFunctions s ! k)
               = inputs (filter (\<lambda>item. item_type item = Some ''function'') items ! k)
           \<and> fn_outputs (getAvailableFunctions s ! k)
               = outputs (filter (\<lambda>item. item_type item = Some ''function'') items ! k)
           \<and> fn_constant (getAvailableFunctions s ! k)
               = constantFlag (filter (\<lambda>item. item_type item = Some ''function'') items ! k)
           \<and> fn_payable (getAvailableFunctions s ! k)
               = (payable (filter (\<lambda>item. item_type item = Some ''function'') items ! k)
                    = Some True
                  \<or> stateMutability
                       (filter (\<lambda>item. item_type item = Some ''function'') items ! k)
                    = Some ''payable''))"
proof -
  let ?fs = "filter (\<lambda>item. item_type item = Some ''function'') items"
  have l: "length (getAvailableFunctions s) = length ?fs"
    using assms by (simp add: getAvailableFunctions_def)
  have c: "length ?fs + length (filter (\<lambda>item. item_type item \<noteq> Some ''function'') items)
           = length items"
    by (rule sum_length_filter_compl)
  have n: "map fn_name (getAvailableFunctions s) = map item_name ?fs"
    using assms by (simp add: getAvailableFunctions_def comp_def)
  have "subseq ?fs items"
    by simp
  then have q: "subseq (map fn_name (getAvailableFunctions s)) (map item_name items)"
    unfolding n by (rule subseq_map)
  have k: "\<forall>k < length ?fs.
             fn_name (getAvailableFunctions s ! k) = item_name (?fs ! k)
           \<and> fn_type (getAvailableFunctions s ! k) = stateMutability (?fs ! k)
           \<and> fn_inputs (getAvailableFunctions s ! k) = inputs (?fs ! k)
           \<and> fn_outputs (getAvailableFunctions s ! k) = outputs (?fs ! k)
           \<and> fn_constant (getAvailableFunctions s ! k) = constantFlag (?fs ! k)
           \<and> fn_payable (getAvailableFunctions s ! k)
               = (payable (?fs ! k) = Some True \<or> stateMutability (?fs ! k) = Some ''payable'')"
    using assms by (simp add: getAvailableFunctions_def)
  show ?thesis
    using l c n q k by simp
qed

text \<open>The token ABI has one event and two functions.\<close>

theorem getAvailableFunctions_functions_witness:
  "abi token_reader = Some token_abi
   \<and> length (filter (\<lambda>item. item_type item = Some ''function'') token_abi) = 2
   \<and> length (filter (\<lambda>item. item_type item \<noteq> Some ''function'') token_abi) = 1
   \<and> length (getAvailableFunctions token_reader) = 2
   \<and> map fn_name (getAvailableFunctions token_reader) = [Some ''balanceOf'', Some ''transfer'']
   \<and> fn_type (getAvailableFunctions token_reader ! 0) = Some ''view''
   \<and> fn_payable (getAvailableFunctions token_reader ! 1) = False"
proof -
  have a: "abi token_reader = Some token_abi"
    by (simp add: token_reader_eq)
  have f: "filter (\<lambda>item. item_type item = Some ''function'') token_abi
             = [token_abi ! 1, token_abi ! 2]"
    by (simp add: token_abi_def)
  have g: "length (filter (\<lambda>item. item_type item \<noteq> Some ''function'') token_abi) = 1"
    by (simp add: token_abi_def)
  have v: "item_name (token_abi ! 1) = Some ''balanceOf''"
    "item_name (token_abi ! 2) = Some ''transfer''"
    "stateMutability (token_abi ! 1) = Some ''view''"
    "stateMutability (token_abi ! 2) = Some ''nonpayable''"
    "payable (token_abi ! 2) = None"
    by (simp_all add: token_abi_def)
  show ?thesis
    using getAvailableFunctions_functions [OF a] a f g v by simp
qed

subsection \<open>Formatting a result\<close>

text \<open>
  The three cases of \<open>_formatResult\<close>: a \<open>BigNumber\<close> becomes its decimal string; an
  array with more than one output definition becomes an object with one assignment per
  output, in order, a later one overwriting an earlier one of the same key (shown here
  for keys other than \<open>__proto__\<close>); anything else is returned as it is.
\<close>

lemma formatResult_BigNumber:
  "formatResult (VBigNumber n) outputDefinitions = Returned (VString (string_of_int n))"
  by (simp add: formatResult_def)

lemma formatResult_unchanged:
  assumes "\<not> isBigNumber result"
    and "\<not> isArrayValue result \<or> outputDefinitions = None
         \<or> (\<exists>outs. outputDefinitions = Some outs \<and> length outs \<le> 1)"
  shows "formatResult result outputDefinitions = Returned result"
  using assms by (auto simp: formatResult_def split: option.splits)

lemma format_outputs_updates:
  assumes "\<forall>i < length outs. output_key (outs ! i) (index + i) \<noteq> ''__proto__''"
  shows "format_outputs outs index result props
     = Some (AList.updates (map (\<lambda>(output, i). output_key output i)
                               (zip outs [index..<index + length outs]))
               (map (\<lambda>i. stringified (element_at result i)) [index..<index + length outs])
               props)"
  using assms
proof (induction outs arbitrary: index props)
  case Nil
  then show ?case by simp
next
  case (Cons out rest)
  have k: "output_key out index \<noteq> ''__proto__''"
    using Cons.prems by force
  have r: "\<forall>i < length rest. output_key (rest ! i) (Suc index + i) \<noteq> ''__proto__''"
    using Cons.prems by force
  have u: "[index..<index + length (out # rest)]
            = index # [Suc index..<Suc index + length rest]"
    by (simp add: upt_rec)
  show ?case
    unfolding u using k Cons.IH [OF r] by (simp add: assign_value_def)
qed

lemma formatResult_mapping:
  assumes "1 < length outs"
    and "\<forall>i < length outs. output_key (outs ! i) i \<noteq> ''__proto__''"
  shows "formatResult (VArray vs) (Some outs)
     = Returned (VObject (AList.updates
         (map (\<lambda>(output, i). output_key output i) (zip outs [0..<length outs]))
         (map (\<lambda>i. stringified (element_at (VArray vs) i)) [0..<length outs]) []))"
  using assms format_outputs_updates [of outs 0 "VArray vs" "[]"]
  by (simp add: formatResult_def)

text \<open>
  Claim C5 says that for an array result and more than one output definition the
  object returned is keyed by each output's name. With two outputs named \<open>__proto__\<close>
  and \<open>b\<close> and the result \<open>[1, 2]\<close> of two \<open>BigNumber\<close>s, the object returned has the key
  \<open>b\<close> only: the assignment \<open>formattedResult["__proto__"] = "1"\<close> reaches the setter of
  \<open>Object.prototype\<close>, which drops the string.
\<close>

theorem formatResult_proto_output:
  "formatResult (VArray [VBigNumber 1, VBigNumber 2])
     (Some [\<lparr>param_name = Some ''__proto__'', param_type = ''uint256''\<rparr>,
            \<lparr>param_name = Some ''b'', param_type = ''uint256''\<rparr>])
   = Returned (VObject [(''b'', VString ''2'')])
   \<and> output_key \<lparr>param_name = Some ''__proto__'', param_type = ''uint256''\<rparr> 0
       = ''__proto__''
   \<and> map_of [(''b'', VString ''2'')] ''__proto__'' = None"
  by (simp add: formatResult_def assign_value_def output_key_def string_of_int_def
      decimal.simps digit_char_def)

text \<open>Two outputs, one named and one not.\<close>

lemma formatResult_two_outputs:
  "formatResult (VArray [VBigNumber 1, VString ''x''])
     (Some [\<lparr>param_name = Some ''amount'', param_type = ''uint256''\<rparr>,
            \<lparr>param_name = Some '''', param_type = ''string''\<rparr>])
   = Returned (VObject [(''amount'', VString ''1''), (''output_1'', VString ''x'')])"
  by (simp add: formatResult_def assign_value_def output_key_def string_of_int_def
      string_of_nat_def decimal.simps digit_char_def)

end
